theory Spec2Isabelle
  imports Main
begin

section \<open>Strings as the program sees them\<close>

text \<open>
  A JavaScript string is a sequence of code units; here it is a \<^typ>\<open>string\<close>, each
  \<^typ>\<open>char\<close> standing for the code unit of the same number (0 to 255). The relational
  operators of the language compare two strings code unit by code unit, a proper prefix being
  smaller.
\<close>

fun js_str_le :: "string \<Rightarrow> string \<Rightarrow> bool" where
  "js_str_le [] t = True"
| "js_str_le (a # s) [] = False"
| "js_str_le (a # s) (b # t) =
     (if (of_char a :: nat) < of_char b then True
      else if (of_char b :: nat) < of_char a then False
      else js_str_le s t)"

definition js_str_gt :: "string \<Rightarrow> string \<Rightarrow> bool" where
  "js_str_gt s t = (\<not> js_str_le s t)"

text \<open>\<open>s.split(c)\<close> for a separator of one character: never the empty list.\<close>

fun split_on :: "char \<Rightarrow> string \<Rightarrow> string list" where
  "split_on c [] = [[]]"
| "split_on c (x # xs) =
     (if x = c then [] # split_on c xs
      else (case split_on c xs of [] \<Rightarrow> [[x]] | w # ws \<Rightarrow> (x # w) # ws))"

text \<open>\<open>s.split(c)[0]\<close>\<close>

definition first_field :: "char \<Rightarrow> string \<Rightarrow> string" where
  "first_field c s = (case split_on c s of [] \<Rightarrow> [] | w # ws \<Rightarrow> w)"

text \<open>
  The white space that \<open>trim\<close> removes, among the code units below 256: tab, line feed,
  vertical tab, form feed, carriage return, space and the no-break space.
\<close>

definition isWhiteSpace :: "char \<Rightarrow> bool" where
  "isWhiteSpace c = ((of_char c :: nat) \<in> {9, 10, 11, 12, 13, 32, 160})"

definition trim :: "string \<Rightarrow> string" where
  "trim s = rev (dropWhile isWhiteSpace (rev (dropWhile isWhiteSpace s)))"

text \<open>\<open>xs.join(sep)\<close>\<close>

fun join :: "string \<Rightarrow> string list \<Rightarrow> string" where
  "join sep [] = []"
| "join sep [x] = x"
| "join sep (x # y # ys) = x @ sep @ join sep (y # ys)"

text \<open>\<open>s.replace(c, d)\<close> with a string pattern: the first occurrence only.\<close>

fun replace_first :: "char \<Rightarrow> char \<Rightarrow> string \<Rightarrow> string" where
  "replace_first c d [] = []"
| "replace_first c d (x # xs) = (if x = c then d # xs else x # replace_first c d xs)"

text \<open>\<open>n.toString()\<close> of a non-negative integer, and \<open>b.toString()\<close> of a boolean.\<close>

definition digitChar :: "nat \<Rightarrow> char" where
  "digitChar d = ''0123456789'' ! d"

fun nat_toString :: "nat \<Rightarrow> string" where
  "nat_toString n =
     (if n < 10 then [digitChar n] else nat_toString (n div 10) @ [digitChar (n mod 10)])"

declare nat_toString.simps [simp del]

definition bool_toString :: "bool \<Rightarrow> string" where
  "bool_toString b = (if b then ''true'' else ''false'')"

section \<open>Thrown values\<close>

text \<open>
  Whatever a collaborator throws: an \<open>Error\<close> object with its \<open>name\<close> and
  \<open>message\<close>, or a value that is no \<open>Error\<close>, kept as the text a template literal
  prints for it.
\<close>

datatype thrown = ErrorObj string string | NonError string

text \<open>\<open>`${error}`\<close>\<close>

fun thrown_toString :: "thrown \<Rightarrow> string" where
  "thrown_toString (ErrorObj nm msg) =
     (if nm = [] then msg else if msg = [] then nm else nm @ '': '' @ msg)"
| "thrown_toString (NonError s) = s"

text \<open>\<open>new Error(msg)\<close>\<close>

definition newError :: "string \<Rightarrow> thrown" where
  "newError msg = ErrorObj ''Error'' msg"

section \<open>Pull requests\<close>

text \<open>
  \<open>rawPR\<close> is an element of the list the hosting API returns, reduced to the fields
  \<open>run\<close> reads; a field the code guards with \<open>|| ''\<close>, \<open>|| []\<close>, \<open>?.\<close> or
  \<open>=== null\<close> is optional. A label object is reduced to its \<open>name\<close>.
\<close>

record rawPR =
  raw_title :: string
  raw_body :: "string option"
  raw_number :: int
  raw_html_url :: string
  raw_user :: "string option"
  raw_merged_at :: "string option"
  raw_labels :: "string list option"

text \<open>The interface \<open>PR\<close> of the source.\<close>

record PR =
  title :: string
  body :: string
  number :: int
  html_url :: string
  user :: string
  merged_at :: string
  labels :: "string list"

text \<open>\<open>(pr.labels || []).map(label => label.name)\<close>\<close>

definition labelNames :: "rawPR \<Rightarrow> string list" where
  "labelNames pr = (case raw_labels pr of None \<Rightarrow> [] | Some ls \<Rightarrow> ls)"

text \<open>\<open>x || ''\<close> on a string that may be null: null and the empty string both give \<open>''\<close>.\<close>

definition orEmpty :: "string option \<Rightarrow> string" where
  "orEmpty x = (case x of None \<Rightarrow> [] | Some s \<Rightarrow> s)"

text \<open>The predicate handed to \<open>allPRs.filter\<close> in \<open>run\<close>.\<close>

definition keepPR :: "string list \<Rightarrow> bool \<Rightarrow> string \<Rightarrow> rawPR \<Rightarrow> bool" where
  "keepPR groupingLabels requireFeatureLabel sinceDate pr =
     (case raw_merged_at pr of
        None \<Rightarrow> False
      | Some m \<Rightarrow>
          if js_str_le m sinceDate then False
          else
            let prLabels = labelNames pr;
                hasGroupingLabel = list_ex (\<lambda>groupLabel. groupLabel \<in> set prLabels) groupingLabels
            in if requireFeatureLabel then ''feature'' \<in> set prLabels \<and> hasGroupingLabel
               else hasGroupingLabel)"

text \<open>The projection handed to \<open>.map\<close> in \<open>run\<close>.\<close>

definition projectPR :: "rawPR \<Rightarrow> PR" where
  "projectPR pr =
     \<lparr> title = raw_title pr,
       body = orEmpty (raw_body pr),
       number = raw_number pr,
       html_url = raw_html_url pr,
       user = orEmpty (raw_user pr),
       merged_at = orEmpty (raw_merged_at pr),
       labels = labelNames pr \<rparr>"

definition relevantPRs :: "string list \<Rightarrow> bool \<Rightarrow> string \<Rightarrow> rawPR list \<Rightarrow> PR list" where
  "relevantPRs groupingLabels requireFeatureLabel sinceDate allPRs =
     map projectPR (filter (keepPR groupingLabels requireFeatureLabel sinceDate) allPRs)"

section \<open>Grouping\<close>

text \<open>
  A \<open>Map\<close> keeps its keys in the order of their first insertion: an association list with
  distinct keys. \<open>set\<close> on a key already there replaces the value where it stands.
\<close>

fun map_has :: "'k \<Rightarrow> ('k \<times> 'v) list \<Rightarrow> bool" where
  "map_has k [] = False"
| "map_has k ((k', v') # m) = (if k' = k then True else map_has k m)"

fun map_set :: "'k \<Rightarrow> 'v \<Rightarrow> ('k \<times> 'v) list \<Rightarrow> ('k \<times> 'v) list" where
  "map_set k v [] = [(k, v)]"
| "map_set k v ((k', v') # m) = (if k' = k then (k, v) # m else (k', v') # map_set k v m)"

text \<open>\<open>groups.get(label)!.push(pr)\<close>: the array stored under the key grows in place.\<close>

fun bucket_push :: "'k \<Rightarrow> 'a \<Rightarrow> ('k \<times> 'a list) list \<Rightarrow> ('k \<times> 'a list) list" where
  "bucket_push k x [] = []"
| "bucket_push k x ((k', b) # m) =
     (if k' = k then (k', b @ [x]) # m else (k', b) # bucket_push k x m)"

definition groupPRsByLabels :: "PR list \<Rightarrow> string list \<Rightarrow> (string \<times> PR list) list" where
  "groupPRsByLabels prs groupingLabels =
     foldl (\<lambda>groups pr.
              foldl (\<lambda>groups label.
                       if map_has label groups then bucket_push label pr groups else groups)
                    groups (labels pr))
           (foldl (\<lambda>groups label. map_set label [] groups) [] groupingLabels)
           prs"

section \<open>The generative endpoint\<close>

text \<open>
  The interface \<open>GeminiResponse\<close>; each level that the code reaches through \<open>?.\<close> may be
  missing.
\<close>

datatype part = Part (part_text: "string option")

datatype content = Content (content_parts: "part list option")

datatype candidate = Candidate (candidate_content: "content option")

datatype GeminiResponse = GeminiResponse (candidates: "candidate list option")

text \<open>
  What \<open>await fetch(...)\<close> gives: it throws (a transport error), or it is a response with
  its \<open>ok\<close> flag, its \<open>statusText\<close> and the outcome of \<open>await response.json()\<close>, which
  throws too or is the data.
\<close>

datatype json_result = JsonThrows thrown | JsonValue GeminiResponse

datatype fetch_result = FetchThrows thrown | Response bool string json_result

text \<open>\<open>geminiData.candidates?.[0]?.content?.parts?.[0]?.text\<close>; \<open>None\<close> is \<open>undefined\<close>.\<close>

definition extractText :: "GeminiResponse \<Rightarrow> string option" where
  "extractText geminiData =
     (case candidates geminiData of
        None \<Rightarrow> None
      | Some [] \<Rightarrow> None
      | Some (c # cs) \<Rightarrow>
          (case candidate_content c of
             None \<Rightarrow> None
           | Some ct \<Rightarrow>
               (case content_parts ct of
                  None \<Rightarrow> None
                | Some [] \<Rightarrow> None
                | Some (p # ps) \<Rightarrow> part_text p)))"

text \<open>\<open>x || fallback\<close>: \<open>undefined\<close> and the empty string are falsy.\<close>

definition orElse :: "string option \<Rightarrow> string \<Rightarrow> string" where
  "orElse x fallback = (case x of None \<Rightarrow> fallback | Some s \<Rightarrow> if s = [] then fallback else s)"

section \<open>The world a run acts on\<close>

text \<open>
  \<open>GroupedSummary\<close>, \<open>LabelGroup\<close> and \<open>ArtifactData\<close> of the source (the metadata
  object inlined).
\<close>

record GroupedSummary =
  markdown :: string
  slack :: string

record LabelGroup =
  lg_name :: string
  lg_prs :: "PR list"
  lg_summary :: GroupedSummary

record ArtifactData =
  md_releaseDate :: string
  md_releaseTimestamp :: string
  md_totalPRs :: nat
  md_groupingLabels :: "string list"
  md_generatedAt :: string
  groups :: "LabelGroup list"

text \<open>
  The value of a step output: a text, or the text \<open>JSON.stringify\<close> makes of the
  \<open>groupedSummaries\<close> object, kept as the own properties of that object in the order the
  serialiser enumerates them.
\<close>

datatype outval = Text string | SummariesJson "(string \<times> GroupedSummary) list"

text \<open>
  Everything a run leaves behind: the outputs in the order \<open>core.setOutput\<close> set them, the
  message of \<open>core.setFailed\<close>, the lines of \<open>core.info\<close> and \<open>core.warning\<close>, the
  requests POSTed to the endpoint (URL and prompt), the directories created and the files
  written (path and the document serialised into it).
\<close>

record world =
  outputs :: "(string \<times> outval) list"
  failed :: "string option"
  infos :: "string list"
  warnings :: "string list"
  requests :: "(string \<times> string) list"
  dirs :: "string list"
  files :: "(string \<times> ArtifactData) list"

definition emptyWorld :: world where
  "emptyWorld = \<lparr> outputs = [], failed = None, infos = [], warnings = [], requests = [],
                  dirs = [], files = [] \<rparr>"

definition setOutput :: "string \<Rightarrow> outval \<Rightarrow> world \<Rightarrow> world" where
  "setOutput nm v w = w\<lparr> outputs := outputs w @ [(nm, v)] \<rparr>"

definition info :: "string \<Rightarrow> world \<Rightarrow> world" where
  "info msg w = w\<lparr> infos := infos w @ [msg] \<rparr>"

definition warning :: "string \<Rightarrow> world \<Rightarrow> world" where
  "warning msg w = w\<lparr> warnings := warnings w @ [msg] \<rparr>"

text \<open>The value an output holds at the end: the last one set under the name.\<close>

definition getOutput :: "string \<Rightarrow> world \<Rightarrow> outval option" where
  "getOutput nm w = map_of (rev (outputs w)) nm"

text \<open>
  The collaborators of a run, each with the answer it gives: the inputs of the step, the
  repository of the context, the clock (milliseconds, at the start and when the artifact is
  built) with \<open>toISOString\<close>, the hosting API, the endpoint (by the number of requests made
  before, the URL and the prompt), the file system, the artifact store, and
  \<open>JSON.stringify\<close> on a list of pull requests. \<open>getInput\<close> is
  \<open>core.getInput\<close>; creating the clients (\<open>getOctokit\<close>,
  \<open>DefaultArtifactClient\<close>) is taken to succeed.
\<close>

record release =
  rel_id :: int
  tag_name :: string
  created_at :: string

record env =
  getInput :: "string \<Rightarrow> string"
  context_repo :: "thrown + (string \<times> string)"
  now :: int
  generatedNow :: int
  toISOString :: "int \<Rightarrow> string"
  getLatestRelease :: "thrown + release"
  pulls_list :: "thrown + rawPR list"
  fetch :: "nat \<Rightarrow> string \<Rightarrow> string \<Rightarrow> fetch_result"
  mkdirSync :: "thrown option"
  writeFileSync :: "thrown option"
  uploadArtifact :: "thrown + nat"
  stringify_prs :: "PR list \<Rightarrow> string"

section \<open>Summaries\<close>

definition geminiUrl :: "string \<Rightarrow> string" where
  "geminiUrl geminiApiKey =
     ''https://generativelanguage.googleapis.com/v1beta/models/gemini-2.5-flash:generateContent?key=''
       @ geminiApiKey"

text \<open>
  The body of the \<open>try\<close> block, the same in both functions but for the fallback text: the
  error thrown inside it, or the text returned.
\<close>

definition askGemini :: "fetch_result \<Rightarrow> string \<Rightarrow> thrown + string" where
  "askGemini geminiResponse fallback =
     (case geminiResponse of
        FetchThrows err \<Rightarrow> Inl err
      | Response ok statusText js \<Rightarrow>
          if \<not> ok then Inl (newError (''Gemini API error: '' @ statusText))
          else (case js of
                  JsonThrows err \<Rightarrow> Inl err
                | JsonValue geminiData \<Rightarrow> Inr (orElse (extractText geminiData) fallback)))"

definition summaryPrompt :: "string \<Rightarrow> string \<Rightarrow> string" where
  "summaryPrompt groupContext prsJson =
     ''Create a concise release summary'' @ groupContext @
     '' for the following pull requests. Focus on user-facing improvements and new capabilities. Requirements: Use ### for main headings (minimum h3), #### for subheadings if needed. Keep formatting simple and clean. Preserve Loom video embeddings exactly as they appear in PR descriptions. Return ONLY the summary content - no introductory text, no explanations, just the release notes. Here are the PRs:\<newline>\<newline>''
     @ prsJson"

definition generateAISummary ::
  "env \<Rightarrow> PR list \<Rightarrow> string \<Rightarrow> string option \<Rightarrow> world \<Rightarrow> string \<times> world" where
  "generateAISummary e prs geminiApiKey groupName w =
     (if prs = [] then (''No new changes were released in this period.'', w)
      else
        let groupContext = (case groupName of
                              None \<Rightarrow> []
                            | Some g \<Rightarrow> if g = [] then [] else '' for '' @ g);
            prompt = summaryPrompt groupContext (stringify_prs e prs);
            url = geminiUrl geminiApiKey;
            w1 = w\<lparr> requests := requests w @ [(url, prompt)] \<rparr>
        in case askGemini (fetch e (length (requests w)) url prompt) ''Failed to generate summary'' of
             Inr t \<Rightarrow> (t, w1)
           | Inl err \<Rightarrow>
               (''Failed to generate AI summary'',
                warning (''Failed to generate AI summary'' @ groupContext @ '': ''
                           @ thrown_toString err) w1))"

definition slackPrompt :: "string \<Rightarrow> string" where
  "slackPrompt markdownSummary =
     ''Reformat the following GitHub release content for Slack using these rules: Use *text* for bold (not **text**), Use _text_ for italic, Use `code` for inline code, Use > for blockquotes, Do NOT use ### headers - just use *Bold Text* for section headers, For Loom videos format as: <video_url|Link Text> (Slack link format), Use emojis sparingly for key points only, Keep line breaks and spacing clean for Slack, Do NOT use markdown image syntax ![](url) - use Slack's link format instead. Make it engaging and easy to read in a Slack channel. Return ONLY the reformatted content - no introductory text, no explanations, just the reformatted release notes. Here is the GitHub release content to reformat:\<newline>\<newline>''
     @ markdownSummary"

definition convertToSlackFormat :: "env \<Rightarrow> string \<Rightarrow> string \<Rightarrow> world \<Rightarrow> string \<times> world" where
  "convertToSlackFormat e markdownSummary geminiApiKey w =
     (if markdownSummary = ''No new changes were released in this period.'' \<or>
         markdownSummary = ''Failed to generate AI summary''
      then (markdownSummary, w)
      else
        let prompt = slackPrompt markdownSummary;
            url = geminiUrl geminiApiKey;
            w1 = w\<lparr> requests := requests w @ [(url, prompt)] \<rparr>
        in case askGemini (fetch e (length (requests w)) url prompt)
                  ''Failed to generate Slack summary'' of
             Inr t \<Rightarrow> (t, w1)
           | Inl err \<Rightarrow>
               (''Failed to generate Slack summary'',
                warning (''Failed to generate Slack summary: '' @ thrown_toString err) w1))"

section \<open>The object of grouped summaries\<close>

text \<open>
  \<open>groupedSummaries\<close> starts as \<open>{}\<close> and is filled by \<open>groupedSummaries[labelName] = ...\<close>.
  The own properties of an ordinary object are enumerated with the array indices first, in
  ascending numeric order, then the other names in the order of their creation. An array
  index is the canonical decimal text of an integer from 0 to \<open>2^32 - 2\<close>. Assigning an
  object to \<open>__proto__\<close> runs the inherited setter: the prototype changes and no own
  property is made.
\<close>

definition isDigit :: "char \<Rightarrow> bool" where
  "isDigit c = (48 \<le> (of_char c :: nat) \<and> (of_char c :: nat) \<le> 57)"

definition digits_value :: "string \<Rightarrow> int" where
  "digits_value k = foldl (\<lambda>n c. 10 * n + (of_char c - 48)) 0 k"

definition isArrayIndex :: "string \<Rightarrow> bool" where
  "isArrayIndex k =
     (k \<noteq> [] \<and> list_all isDigit k \<and> (k = ''0'' \<or> hd k \<noteq> CHR ''0'') \<and>
      length k \<le> 10 \<and> digits_value k < 4294967295)"

fun obj_set_index :: "string \<Rightarrow> 'v \<Rightarrow> (string \<times> 'v) list \<Rightarrow> (string \<times> 'v) list" where
  "obj_set_index k v [] = [(k, v)]"
| "obj_set_index k v ((k', v') # m) =
     (if k' = k then (k, v) # m
      else if isArrayIndex k' \<and> digits_value k' < digits_value k
           then (k', v') # obj_set_index k v m
      else (k, v) # (k', v') # m)"

definition obj_set :: "string \<Rightarrow> 'v \<Rightarrow> (string \<times> 'v) list \<Rightarrow> (string \<times> 'v) list" where
  "obj_set k v obj =
     (if k = ''__proto__'' then obj
      else if isArrayIndex k then obj_set_index k v obj
      else map_set k v obj)"

section \<open>The run\<close>

text \<open>The outer \<open>catch\<close> of \<open>run\<close>.\<close>

definition catchTop :: "thrown \<Rightarrow> world \<Rightarrow> world" where
  "catchTop error w =
     (case error of
        ErrorObj nm msg \<Rightarrow> w\<lparr> failed := Some msg \<rparr>
      | NonError s \<Rightarrow> w\<lparr> failed := Some ''An unknown error occurred'' \<rparr>)"

text \<open>The values \<open>run\<close> computes from the inputs and the clock.\<close>

definition parseGroupingLabels :: "string \<Rightarrow> string list" where
  "parseGroupingLabels groupingLabelsInput =
     filter (\<lambda>label. length label > 0) (map trim (split_on CHR '','' groupingLabelsInput))"

definition releaseDateOf :: "env \<Rightarrow> string" where
  "releaseDateOf e = first_field CHR ''T'' (toISOString e (now e))"

definition releaseTimestampOf :: "env \<Rightarrow> string" where
  "releaseTimestampOf e =
     first_field CHR ''.''
       (replace_first CHR ''T'' CHR ''-''
          (filter (\<lambda>c. c \<noteq> CHR '':'' \<and> c \<noteq> CHR ''-'') (toISOString e (now e))))"

text \<open>
  Step 2: \<open>hasPreviousRelease\<close>, \<open>previousTag\<close> and \<open>previousReleaseDate\<close> after the
  inner \<open>try\<close>.
\<close>

definition previousRelease :: "env \<Rightarrow> bool \<times> string \<times> string" where
  "previousRelease e =
     (case getLatestRelease e of
        Inl err \<Rightarrow> (False, [], [])
      | Inr latestRelease \<Rightarrow>
          if rel_id latestRelease \<noteq> 0
          then (True, tag_name latestRelease, created_at latestRelease)
          else (False, [], []))"

text \<open>Step 3: the cutoff.\<close>

definition sinceDateOf :: "env \<Rightarrow> string" where
  "sinceDateOf e =
     (case previousRelease e of
        (hasPreviousRelease, previousTag, previousReleaseDate) \<Rightarrow>
          if hasPreviousRelease then previousReleaseDate
          else toISOString e (now e - 7 * 24 * 60 * 60 * 1000))"

text \<open>
  The body of the loop \<open>for (const [labelName, prs] of prGroups)\<close>, acting on
  \<open>groupedSummaries\<close>, \<open>labelGroups\<close> and the world as they stand.
\<close>

definition summarizeGroup ::
  "env \<Rightarrow> string \<Rightarrow> string \<Rightarrow> PR list \<Rightarrow>
   (string \<times> GroupedSummary) list \<times> LabelGroup list \<times> world \<Rightarrow>
   (string \<times> GroupedSummary) list \<times> LabelGroup list \<times> world" where
  "summarizeGroup e geminiApiKey labelName prs acc =
     (case acc of (groupedSummaries, labelGroups, w) \<Rightarrow>
        if length prs > 0 then
          let w0 = info (''Generating summary for '' @ labelName @ '' group (''
                           @ nat_toString (length prs) @ '' PRs)'') w;
              (markdownSummary, w1) = generateAISummary e prs geminiApiKey (Some labelName) w0;
              (slackSummary, w2) = convertToSlackFormat e markdownSummary geminiApiKey w1;
              groupSummary = \<lparr> markdown = markdownSummary, slack = slackSummary \<rparr>
          in (obj_set labelName groupSummary groupedSummaries,
              labelGroups @ [\<lparr> lg_name = labelName, lg_prs = prs, lg_summary = groupSummary \<rparr>],
              w2)
        else (groupedSummaries, labelGroups, w))"

text \<open>The loop, over the entries of the \<open>Map\<close> in their order.\<close>

fun summarizeGroups ::
  "env \<Rightarrow> string \<Rightarrow> (string \<times> PR list) list \<Rightarrow>
   (string \<times> GroupedSummary) list \<times> LabelGroup list \<times> world \<Rightarrow>
   (string \<times> GroupedSummary) list \<times> LabelGroup list \<times> world" where
  "summarizeGroups e geminiApiKey [] acc = acc"
| "summarizeGroups e geminiApiKey ((labelName, prs) # rest) acc =
     summarizeGroups e geminiApiKey rest (summarizeGroup e geminiApiKey labelName prs acc)"

text \<open>Steps 4 and 5 of \<open>run\<close>, from \<open>relevantPRs\<close> on.\<close>

definition runGroups ::
  "env \<Rightarrow> string \<Rightarrow> string list \<Rightarrow> PR list \<Rightarrow> world \<Rightarrow> world" where
  "runGroups e geminiApiKey groupingLabels relevant w =
     (let w1 = info (''Found '' @ nat_toString (length relevant) @ '' relevant PRs'') w;
          prGroups = groupPRsByLabels relevant groupingLabels
      in case summarizeGroups e geminiApiKey prGroups ([], [], w1) of
           (groupedSummaries, labelGroups, w2) \<Rightarrow>
      let w3 = setOutput ''grouped-summaries'' (SummariesJson groupedSummaries) w2;
          w4 = setOutput ''label-groups'' (Text (join '','' (map lg_name labelGroups))) w3;
          w5 = setOutput ''total-prs'' (Text (nat_toString (length relevant))) w4;
          w6 = setOutput ''has-content'' (Text (bool_toString (length labelGroups > 0))) w5;
          artifactData =
            \<lparr> md_releaseDate = releaseDateOf e,
              md_releaseTimestamp = releaseTimestampOf e,
              md_totalPRs = length relevant,
              md_groupingLabels = groupingLabels,
              md_generatedAt = toISOString e (generatedNow e),
              groups = labelGroups \<rparr>;
          artifactDir = ''./changelog-artifacts''
      in case mkdirSync e of
           Some err \<Rightarrow> catchTop err w6
         | None \<Rightarrow>
             let w7 = w6\<lparr> dirs := dirs w6 @ [artifactDir] \<rparr>;
                 artifactPath = ''changelog-artifacts/grouped-changelog.json''
             in case writeFileSync e of
                  Some err \<Rightarrow> catchTop err w7
                | None \<Rightarrow>
                    let w8 = w7\<lparr> files := files w7 @ [(artifactPath, artifactData)] \<rparr>;
                        artifactName = ''changelog-'' @ releaseTimestampOf e;
                        w9 = (case uploadArtifact e of
                                Inr uploadSize \<Rightarrow>
                                  info (''Uploaded artifact: '' @ artifactName @ '' (''
                                          @ nat_toString uploadSize @ '' bytes)'')
                                    (setOutput ''artifact-name'' (Text artifactName) w8)
                              | Inl err \<Rightarrow>
                                  setOutput ''artifact-name'' (Text [])
                                    (warning (''Failed to upload artifact: ''
                                                @ thrown_toString err) w8))
                    in info ''Changelog generation completed successfully'' w9)"

text \<open>
  Steps 1 and 2 of \<open>run\<close> and the choice of the cutoff, from the validated inputs on:
  the world just before the pull requests are listed.
\<close>

definition releaseSteps :: "env \<Rightarrow> string list \<Rightarrow> bool \<Rightarrow> string \<Rightarrow> string \<Rightarrow> world" where
  "releaseSteps e groupingLabels requireFeatureLabel owner repo =
     (let w1 = info ''Starting changelog generation...'' emptyWorld;
          w2 = info (''Repository: '' @ owner @ ''/'' @ repo) w1;
          w3 = info (''Grouping labels: '' @ join '', '' groupingLabels) w2;
          w4 = info (''Require feature label: '' @ bool_toString requireFeatureLabel) w3;
          releaseDate = releaseDateOf e;
          releaseTimestamp = releaseTimestampOf e;
          w5 = setOutput ''release-date'' (Text releaseDate) w4;
          w6 = setOutput ''release-timestamp'' (Text releaseTimestamp) w5;
          w7 = info (''Release date: '' @ releaseDate @ '', timestamp: '' @ releaseTimestamp) w6
      in case previousRelease e of
           (hasPreviousRelease, previousTag, previousReleaseDate) \<Rightarrow>
      let w8 = (case getLatestRelease e of
                  Inl err \<Rightarrow> info ''No previous releases found. This is the first release.'' w7
                | Inr latestRelease \<Rightarrow>
                    if hasPreviousRelease
                    then info (''Found previous release: '' @ previousTag @ '' created at ''
                                 @ previousReleaseDate) w7
                    else w7);
          w9 = setOutput ''has-previous-release'' (Text (bool_toString hasPreviousRelease)) w8;
          w10 = setOutput ''previous-tag'' (Text previousTag) w9;
          w11 = setOutput ''previous-release-date'' (Text previousReleaseDate) w10;
          sinceDate = sinceDateOf e
      in if hasPreviousRelease
         then info (''Fetching feature PRs since last release: '' @ sinceDate) w11
         else info (''No previous release found. Fetching feature PRs from last 7 days: ''
                      @ sinceDate) w11)"

text \<open>Step 3 of \<open>run\<close>: the pull requests are listed and filtered, then steps 4 and 5.\<close>

definition runRelease ::
  "env \<Rightarrow> string \<Rightarrow> string list \<Rightarrow> bool \<Rightarrow> string \<Rightarrow> string \<Rightarrow> world" where
  "runRelease e geminiApiKey groupingLabels requireFeatureLabel owner repo =
     (let w12 = releaseSteps e groupingLabels requireFeatureLabel owner repo
      in case pulls_list e of
           Inl err \<Rightarrow> catchTop err w12
         | Inr allPRs \<Rightarrow>
             runGroups e geminiApiKey groupingLabels
               (relevantPRs groupingLabels requireFeatureLabel (sinceDateOf e) allPRs) w12)"

text \<open>\<open>run\<close>: the inputs are read and checked, then the steps follow.\<close>

definition run :: "env \<Rightarrow> world" where
  "run e =
     (let githubToken = getInput e ''github-token'';
          geminiApiKey = getInput e ''gemini-api-key'';
          groupingLabelsInput = getInput e ''grouping-labels'';
          requireFeatureLabel = (getInput e ''require-feature-label'' = ''true'')
      in if githubToken = [] \<or> geminiApiKey = [] \<or> groupingLabelsInput = []
         then catchTop
                (newError ''Missing required inputs: github-token, gemini-api-key, or grouping-labels'')
                emptyWorld
         else
           let groupingLabels = parseGroupingLabels groupingLabelsInput
           in if length groupingLabels = 0
              then catchTop (newError ''At least one grouping label must be provided'') emptyWorld
              else (case context_repo e of
                      Inl err \<Rightarrow> catchTop err emptyWorld
                    | Inr (owner, repo) \<Rightarrow>
                        runRelease e geminiApiKey groupingLabels requireFeatureLabel owner repo))"

section \<open>The specification's words\<close>

text \<open>
  The instant a timestamp stands for. The hosting API writes \<open>YYYY-MM-DDTHH:MM:SSZ\<close> and
  \<open>toISOString\<close> writes \<open>YYYY-MM-DDTHH:MM:SS.sssZ\<close>, both in UTC. The \<open>shape\<close> of a
  text is the text with every digit replaced by \<open>0\<close>. The instant is the number
  \<open>YYYYMMDDHHMMSSsss\<close> made of the calendar fields, the milliseconds being \<open>000\<close> when
  they are not written: of two instants the earlier one has the smaller number. A text of
  another shape stands for no instant.
\<close>

definition shape :: "string \<Rightarrow> string" where
  "shape s = map (\<lambda>c. if isDigit c then CHR ''0'' else c) s"

definition instant :: "string \<Rightarrow> int option" where
  "instant s =
     (if shape s = ''0000-00-00T00:00:00Z'' then Some (1000 * digits_value (filter isDigit s))
      else if shape s = ''0000-00-00T00:00:00.000Z'' then Some (digits_value (filter isDigit s))
      else None)"

text \<open>The first timestamp is strictly after the second one.\<close>

definition strictlyAfter :: "string \<Rightarrow> string \<Rightarrow> bool" where
  "strictlyAfter m cutoff =
     (case instant m of
        None \<Rightarrow> False
      | Some a \<Rightarrow> (case instant cutoff of None \<Rightarrow> False | Some b \<Rightarrow> b < a))"

text \<open>
  The condition of inclusion as the specification words it: the merge timestamp is present
  and not empty, it is strictly after the cutoff, some label of the pull request is a
  grouping label, and with the flag set the label \<open>feature\<close> is among the labels.
\<close>

definition spec_included :: "string list \<Rightarrow> bool \<Rightarrow> string \<Rightarrow> rawPR \<Rightarrow> bool" where
  "spec_included groupingLabels requireFeatureLabel cutoff pr =
     ((case raw_merged_at pr of None \<Rightarrow> False | Some m \<Rightarrow> m \<noteq> [] \<and> strictlyAfter m cutoff) \<and>
      set (labelNames pr) \<inter> set groupingLabels \<noteq> {} \<and>
      (requireFeatureLabel \<longrightarrow> ''feature'' \<in> set (labelNames pr)))"

text \<open>The configured labels in configuration order, each at its first occurrence.\<close>

definition configured :: "string list \<Rightarrow> string list" where
  "configured groupingLabels = rev (remdups (rev groupingLabels))"

text \<open>
  The members of the bucket of a label: every pull request of the list, in order, once for
  each occurrence of the label among its labels.
\<close>

definition members :: "string \<Rightarrow> PR list \<Rightarrow> PR list" where
  "members l prs = concat (map (\<lambda>pr. replicate (count_list (labels pr) l) pr) prs)"

text \<open>The groups that are emitted: the configured labels whose bucket has a member.\<close>

definition emitted :: "PR list \<Rightarrow> string list \<Rightarrow> (string \<times> PR list) list" where
  "emitted prs groupingLabels =
     filter (\<lambda>(l, b). b \<noteq> []) (map (\<lambda>l. (l, members l prs)) (configured groupingLabels))"

text \<open>
  A non-2xx status or a transport error: the request throws, or the response is not \<open>ok\<close>.
\<close>

definition endpointFails :: "fetch_result \<Rightarrow> bool" where
  "endpointFails r = (case r of FetchThrows err \<Rightarrow> True | Response ok statusText js \<Rightarrow> \<not> ok)"

text \<open>
  Two worlds that differ at most in their logs (the lines of information and warning, and
  the requests sent): the outputs, the failure signal and the file system are the same.
\<close>

definition onlyLogs :: "world \<Rightarrow> world \<Rightarrow> bool" where
  "onlyLogs w w' =
     (outputs w' = outputs w \<and> failed w' = failed w \<and> dirs w' = dirs w \<and> files w' = files w)"

text \<open>The configuration of a run, and the filtered list of pull requests it works on.\<close>

definition cfgLabels :: "env \<Rightarrow> string list" where
  "cfgLabels e = parseGroupingLabels (getInput e ''grouping-labels'')"

definition cfgFeature :: "env \<Rightarrow> bool" where
  "cfgFeature e = (getInput e ''require-feature-label'' = ''true'')"

definition filteredPRs :: "env \<Rightarrow> PR list" where
  "filteredPRs e =
     (case pulls_list e of
        Inl err \<Rightarrow> []
      | Inr allPRs \<Rightarrow> relevantPRs (cfgLabels e) (cfgFeature e) (sinceDateOf e) allPRs)"

text \<open>A run is completed when it ends without the failure signal.\<close>

definition completed :: "env \<Rightarrow> bool" where
  "completed e = (failed (run e) = None)"

text \<open>
  A name that an object keeps where it was created: neither an array index nor
  \<open>__proto__\<close>.
\<close>

definition plainName :: "string \<Rightarrow> bool" where
  "plainName k = (k \<noteq> ''__proto__'' \<and> \<not> isArrayIndex k)"

text \<open>The groups of the artifact documents a run wrote.\<close>

definition artifactGroups :: "world \<Rightarrow> LabelGroup list list" where
  "artifactGroups w = map (\<lambda>(path, doc). groups doc) (files w)"

section \<open>The data of the test suite\<close>

definition mockPRs :: "rawPR list" where
  "mockPRs =
     [\<lparr> raw_title = ''Add new writer features'',
        raw_body = Some ''Enhanced content editing capabilities'',
        raw_number = 123,
        raw_html_url = ''https://github.com/test/repo/pull/123'',
        raw_user = Some ''dev1'',
        raw_merged_at = Some ''2024-01-15T10:00:00Z'',
        raw_labels = Some [''writer'', ''feature''] \<rparr>,
      \<lparr> raw_title = ''Update UI components'',
        raw_body = Some ''New dashboard design'',
        raw_number = 124,
        raw_html_url = ''https://github.com/test/repo/pull/124'',
        raw_user = Some ''dev2'',
        raw_merged_at = Some ''2024-01-16T10:00:00Z'',
        raw_labels = Some [''ui'', ''feature''] \<rparr>,
      \<lparr> raw_title = ''Old feature from last year'',
        raw_body = Some ''Should not be included'',
        raw_number = 100,
        raw_html_url = ''https://github.com/test/repo/pull/100'',
        raw_user = Some ''dev3'',
        raw_merged_at = Some ''2023-01-01T10:00:00Z'',
        raw_labels = Some [''writer''] \<rparr>]"

definition mockGeminiResponse :: GeminiResponse where
  "mockGeminiResponse =
     GeminiResponse (Some [Candidate (Some (Content (Some
       [Part (Some ''### Test Summary\<newline>- Test feature added'')])))])"

definition mockInputs :: "string \<Rightarrow> string" where
  "mockInputs nm =
     (if nm = ''github-token'' then ''test-token''
      else if nm = ''gemini-api-key'' then ''test-gemini-key''
      else if nm = ''grouping-labels'' then ''writer,ui''
      else if nm = ''require-feature-label'' then ''false''
      else [])"

text \<open>
  The environment of the test suite's \<open>beforeEach\<close>; the clock stands at
  2024-01-23T08:53:20.000Z.
\<close>

definition mockEnv :: env where
  "mockEnv =
     \<lparr> getInput = mockInputs,
       context_repo = Inr (''test-owner'', ''test-repo''),
       now = 1706000000000,
       generatedNow = 1706000000000,
       toISOString = (\<lambda>t. if t = 1706000000000 then ''2024-01-23T08:53:20.000Z''
                           else ''2024-01-16T08:53:20.000Z''),
       getLatestRelease =
         Inr \<lparr> rel_id = 1, tag_name = ''v1.0.0'', created_at = ''2024-01-01T10:00:00Z'' \<rparr>,
       pulls_list = Inr mockPRs,
       fetch = (\<lambda>i url prompt. Response True ''OK'' (JsonValue mockGeminiResponse)),
       mkdirSync = None,
       writeFileSync = None,
       uploadArtifact = Inr 1024,
       stringify_prs = (\<lambda>prs. ''[]'') \<rparr>"

text \<open>
  A pull request carrying the two grouping labels of the specification's example, and one
  whose label list names \<open>ui\<close> twice.
\<close>

definition bothPR :: PR where
  "bothPR =
     \<lparr> title = ''Editor and dashboard'', body = [], number = 125,
       html_url = ''https://github.com/test/repo/pull/125'', user = ''dev1'',
       merged_at = ''2024-01-17T10:00:00Z'', labels = [''writer'', ''ui''] \<rparr>"

definition twicePR :: PR where
  "twicePR =
     \<lparr> title = ''Dashboard again'', body = [], number = 126,
       html_url = ''https://github.com/test/repo/pull/126'', user = ''dev2'',
       merged_at = ''2024-01-18T10:00:00Z'', labels = [''ui'', ''feature'', ''ui''] \<rparr>"

text \<open>
  Variations of that environment: the token missing (as in the test suite), grouping labels
  that are blank after trimming, the release lookup failing (as in the test suite), the
  endpoint answering with a status that is not \<open>ok\<close> (as in the test suite), the endpoint
  answering with no candidates, and grouping labels \<open>b,1\<close> with one pull request
  carrying both.
\<close>

definition missingTokenEnv :: env where
  "missingTokenEnv =
     mockEnv\<lparr> getInput := (\<lambda>nm. if nm = ''github-token'' then [] else ''test-value'') \<rparr>"

definition blankLabelsEnv :: env where
  "blankLabelsEnv =
     mockEnv\<lparr> getInput := (\<lambda>nm. if nm = ''grouping-labels'' then '' , '' else mockInputs nm) \<rparr>"

definition noReleaseEnv :: env where
  "noReleaseEnv = mockEnv\<lparr> getLatestRelease := Inl (newError ''Not found'') \<rparr>"

definition apiErrorEnv :: env where
  "apiErrorEnv =
     mockEnv\<lparr> fetch := (\<lambda>i url prompt. Response False ''API Error'' (JsonValue mockGeminiResponse)) \<rparr>"

definition noCandidatesEnv :: env where
  "noCandidatesEnv =
     mockEnv\<lparr> fetch := (\<lambda>i url prompt. Response True ''OK'' (JsonValue (GeminiResponse (Some [])))) \<rparr>"

definition numberedPR :: rawPR where
  "numberedPR =
     \<lparr> raw_title = ''Numbered'',
       raw_body = None,
       raw_number = 127,
       raw_html_url = ''https://github.com/test/repo/pull/127'',
       raw_user = Some ''dev1'',
       raw_merged_at = Some ''2024-01-15T10:00:00Z'',
       raw_labels = Some [''b'', ''1''] \<rparr>"

definition numberedEnv :: env where
  "numberedEnv =
     mockEnv\<lparr> getInput := (\<lambda>nm. if nm = ''grouping-labels'' then ''b,1'' else mockInputs nm),
              pulls_list := Inr [numberedPR] \<rparr>"

text \<open>
  The release lookup failing with the clock at 2024-01-23T08:53:20.999Z, and one pull request
  merged in the second of the cutoff, 999 milliseconds before it.
\<close>

definition boundaryPR :: rawPR where
  "boundaryPR =
     \<lparr> raw_title = ''Merged in the second of the cutoff'',
       raw_body = None,
       raw_number = 128,
       raw_html_url = ''https://github.com/test/repo/pull/128'',
       raw_user = Some ''dev1'',
       raw_merged_at = Some ''2024-01-16T08:53:20Z'',
       raw_labels = Some [''ui''] \<rparr>"

definition boundaryEnv :: env where
  "boundaryEnv =
     mockEnv\<lparr> now := 1706000000999,
              toISOString := (\<lambda>t. if t = 1706000000999 then ''2024-01-23T08:53:20.999Z''
                                  else ''2024-01-16T08:53:20.999Z''),
              getLatestRelease := Inl (newError ''Not found''),
              pulls_list := Inr [boundaryPR] \<rparr>"

text \<open>The pull request \<open>twicePR\<close> as the hosting API lists it, alone in the list.\<close>

definition twiceRawPR :: rawPR where
  "twiceRawPR =
     \<lparr> raw_title = ''Dashboard again'',
       raw_body = None,
       raw_number = 126,
       raw_html_url = ''https://github.com/test/repo/pull/126'',
       raw_user = Some ''dev2'',
       raw_merged_at = Some ''2024-01-18T10:00:00Z'',
       raw_labels = Some [''ui'', ''feature'', ''ui''] \<rparr>"

definition twiceEnv :: env where
  "twiceEnv = mockEnv\<lparr> pulls_list := Inr [twiceRawPR] \<rparr>"

section \<open>Grouping: what the buckets hold\<close>

lemma map_has_iff: "map_has k m = (k \<in> fst ` set m)"
  by (induction m) auto

lemma configured_snoc:
  "configured (gl @ [l]) = (if l \<in> set gl then configured gl else configured gl @ [l])"
  by (simp add: configured_def)

lemma set_configured: "set (configured gl) = set gl"
  by (simp add: configured_def)

lemma distinct_configured: "distinct (configured gl)"
  by (simp add: configured_def)

lemma map_set_fresh_buckets:
  "map_set l [] (map (\<lambda>k. (k, [])) ks) =
     (if l \<in> set ks then map (\<lambda>k. (k, [])) ks else map (\<lambda>k. (k, [])) (ks @ [l]))"
  by (induction ks) auto

lemma init_groups:
  "foldl (\<lambda>groups label. map_set label [] groups) [] gl = map (\<lambda>k. (k, [])) (configured gl)"
proof (induction gl rule: rev_induct)
  case Nil
  show ?case by (simp add: configured_def)
next
  case (snoc l gl)
  then show ?case
    by (simp add: map_set_fresh_buckets configured_snoc set_configured)
qed

lemma bucket_push_absent: "k \<notin> fst ` set m \<Longrightarrow> bucket_push k x m = m"
  by (induction m) auto

lemma map_absent:
  "l \<notin> fst ` set m \<Longrightarrow> map (\<lambda>(k, b). (k, if k = l then b @ [x] else b)) m = m"
  by (induction m) auto

lemma bucket_push_map:
  "distinct (map fst m) \<Longrightarrow>
   bucket_push l x m = map (\<lambda>(k, b). (k, if k = l then b @ [x] else b)) m"
  by (induction m) (auto simp: map_absent)

lemma push_step:
  "distinct (map fst m) \<Longrightarrow>
   (if map_has l m then bucket_push l x m else m) =
     map (\<lambda>(k, b). (k, if k = l then b @ [x] else b)) m"
  by (simp add: map_has_iff bucket_push_map map_absent)

lemma keys_push_map: "map fst (map (\<lambda>(k, b). (k, f k b)) m) = map fst m"
  by (induction m) auto

lemma inner_fold:
  "distinct (map fst m) \<Longrightarrow>
   foldl (\<lambda>groups label. if map_has label groups then bucket_push label pr groups else groups) m ls
     = map (\<lambda>(k, b). (k, b @ replicate (count_list ls k) pr)) m"
proof (induction ls arbitrary: m)
  case Nil
  then show ?case by (simp add: case_prod_unfold)
next
  case (Cons l ls)
  let ?m' = "map (\<lambda>(k, b). (k, if k = l then b @ [pr] else b)) m"
  have d: "distinct (map fst ?m')" using Cons.prems by (simp only: keys_push_map)
  show ?case
    using Cons.IH [OF d] Cons.prems
    by (simp add: push_step case_prod_unfold comp_def)
qed

lemma outer_fold:
  "distinct (map fst m) \<Longrightarrow>
   foldl (\<lambda>groups pr.
            foldl (\<lambda>groups label.
                     if map_has label groups then bucket_push label pr groups else groups)
                  groups (labels pr)) m prs
     = map (\<lambda>(k, b). (k, b @ members k prs)) m"
proof (induction prs arbitrary: m)
  case Nil
  then show ?case by (simp add: members_def case_prod_unfold)
next
  case (Cons p prs)
  let ?m' = "map (\<lambda>(k, b). (k, b @ replicate (count_list (labels p) k) p)) m"
  have d: "distinct (map fst ?m')" using Cons.prems by (simp only: keys_push_map)
  show ?case
    using Cons.IH [OF d] Cons.prems
    by (simp add: inner_fold members_def case_prod_unfold comp_def)
qed

lemma groupPRsByLabels_eq:
  "groupPRsByLabels prs gl = map (\<lambda>l. (l, members l prs)) (configured gl)"
proof -
  have "distinct (map fst (map (\<lambda>k. (k, [] :: PR list)) (configured gl)))"
    by (simp add: comp_def distinct_configured)
  then show ?thesis
    by (simp add: groupPRsByLabels_def init_groups outer_fold comp_def)
qed


lemma count_list_replicate_eq:
  "count_list (replicate n x) y = (if x = y then n else 0)"
  by (induction n) auto

lemma count_members:
  "count_list (members l prs) pr = count_list prs pr * count_list (labels pr) l"
  by (induction prs) (auto simp: members_def count_list_replicate_eq)

section \<open>The loop over the groups\<close>

lemma summarizeGroup_empty [simp]: "summarizeGroup e key l [] acc = acc"
  by (simp add: summarizeGroup_def split: prod.splits)


lemma onlyLogs_refl [simp]: "onlyLogs w w"
  by (simp add: onlyLogs_def)

lemma onlyLogs_trans: "onlyLogs w w' \<Longrightarrow> onlyLogs w' w'' \<Longrightarrow> onlyLogs w w''"
  by (simp add: onlyLogs_def)

lemma onlyLogs_info [simp]: "onlyLogs w (info msg w)"
  by (simp add: onlyLogs_def info_def)

lemma onlyLogs_warning [simp]: "onlyLogs w (warning msg w)"
  by (simp add: onlyLogs_def warning_def)

lemma gen_onlyLogs: "onlyLogs w (snd (generateAISummary e prs key g w))"
  by (simp add: generateAISummary_def Let_def warning_def onlyLogs_def split: sum.splits)

lemma conv_onlyLogs: "onlyLogs w (snd (convertToSlackFormat e md key w))"
  by (simp add: convertToSlackFormat_def Let_def warning_def onlyLogs_def split: sum.splits)

lemma step_onlyLogs: "onlyLogs w (snd (snd (summarizeGroup e key l prs (obj, lgs, w))))"
proof (cases "prs = []")
  case True
  then show ?thesis by simp
next
  case False
  let ?w0 = "info (''Generating summary for '' @ l @ '' group (''
                     @ nat_toString (length prs) @ '' PRs)'') w"
  obtain md w1 where g: "generateAISummary e prs key (Some l) ?w0 = (md, w1)"
    by (cases "generateAISummary e prs key (Some l) ?w0") auto
  obtain sl w2 where c: "convertToSlackFormat e md key w1 = (sl, w2)"
    by (cases "convertToSlackFormat e md key w1") auto
  have "onlyLogs ?w0 w1"
    using gen_onlyLogs [of ?w0 e prs key "Some l"] g by simp
  moreover have "onlyLogs w1 w2"
    using conv_onlyLogs [of w1 e md key] c by simp
  ultimately have "onlyLogs w w2"
    using onlyLogs_trans [OF onlyLogs_info] onlyLogs_trans by blast
  then show ?thesis
    using False g c by (simp add: summarizeGroup_def Let_def)
qed

lemma step_shape:
  "prs \<noteq> [] \<Longrightarrow> \<exists>s w'. summarizeGroup e key l prs (obj, lgs, w) =
     (obj_set l s obj, lgs @ [\<lparr> lg_name = l, lg_prs = prs, lg_summary = s \<rparr>], w')"
  by (simp add: summarizeGroup_def Let_def split: prod.splits)

lemma summarize_onlyLogs:
  "onlyLogs (snd (snd acc)) (snd (snd (summarizeGroups e key gs acc)))"
proof (induction e key gs acc rule: summarizeGroups.induct)
  case (1 e key acc)
  show ?case by simp
next
  case (2 e key l prs rest acc)
  obtain obj lgs w where a: "acc = (obj, lgs, w)" by (cases acc) auto
  show ?case
    using 2 step_onlyLogs [of w e key l prs obj lgs] onlyLogs_trans by (auto simp: a)
qed

lemma summarize_members:
  "map (\<lambda>g. (lg_name g, lg_prs g)) (fst (snd (summarizeGroups e key gs acc))) =
     map (\<lambda>g. (lg_name g, lg_prs g)) (fst (snd acc)) @ filter (\<lambda>(l, b). b \<noteq> []) gs"
proof (induction e key gs acc rule: summarizeGroups.induct)
  case (1 e key acc)
  show ?case by simp
next
  case (2 e key l prs rest acc)
  obtain obj lgs w where a: "acc = (obj, lgs, w)" by (cases acc) auto
  show ?case
  proof (cases "prs = []")
    case True
    with 2 show ?thesis by simp
  next
    case False
    from step_shape [OF False, of e key l obj lgs w] obtain s w'
      where "summarizeGroup e key l prs (obj, lgs, w) =
        (obj_set l s obj, lgs @ [\<lparr> lg_name = l, lg_prs = prs, lg_summary = s \<rparr>], w')"
      by blast
    with 2 False show ?thesis by (simp add: a)
  qed
qed

section \<open>The claims on the grouping and the sentinel\<close>

lemma js_str_le_Nil [simp]: "js_str_le s [] = (s = [])"
  by (cases s) simp_all

lemma map_of_tabulate: "l \<in> set ks \<Longrightarrow> map_of (map (\<lambda>k. (k, f k)) ks) l = Some (f l)"
  by (induction ks) auto




text \<open>
  Claim C3. On the empty list the summary generator returns the sentinel text, the chat
  stage returns it unchanged, and neither sends a request: the world is left as it was.
\<close>

theorem C3_empty_sentinel:
  "generateAISummary e [] geminiApiKey groupName w =
     (''No new changes were released in this period.'', w) \<and>
   convertToSlackFormat e (fst (generateAISummary e [] geminiApiKey groupName w)) geminiApiKey w =
     (''No new changes were released in this period.'', w) \<and>
   requests (snd (generateAISummary e [] geminiApiKey groupName w)) = requests w \<and>
   requests (snd (convertToSlackFormat e ''No new changes were released in this period.''
                    geminiApiKey w)) = requests w"
  by (simp add: generateAISummary_def convertToSlackFormat_def)

section \<open>The outputs of a run\<close>

lemma outputs_setOutput [simp]: "outputs (setOutput nm v w) = outputs w @ [(nm, v)]"
  by (simp add: setOutput_def)

lemma failed_setOutput [simp]: "failed (setOutput nm v w) = failed w"
  by (simp add: setOutput_def)

lemma files_setOutput [simp]: "files (setOutput nm v w) = files w"
  by (simp add: setOutput_def)

lemma outputs_info [simp]: "outputs (info msg w) = outputs w"
  by (simp add: info_def)

lemma failed_info [simp]: "failed (info msg w) = failed w"
  by (simp add: info_def)

lemma files_info [simp]: "files (info msg w) = files w"
  by (simp add: info_def)

lemma outputs_warning [simp]: "outputs (warning msg w) = outputs w"
  by (simp add: warning_def)

lemma failed_warning [simp]: "failed (warning msg w) = failed w"
  by (simp add: warning_def)

lemma files_warning [simp]: "files (warning msg w) = files w"
  by (simp add: warning_def)

lemma outputs_catchTop [simp]: "outputs (catchTop err w) = outputs w"
  by (simp add: catchTop_def split: thrown.splits)

lemma files_catchTop [simp]: "files (catchTop err w) = files w"
  by (simp add: catchTop_def split: thrown.splits)

lemma failed_catchTop [simp]: "failed (catchTop err w) \<noteq> None"
  by (simp add: catchTop_def split: thrown.splits)

lemma failed_catchTop_world: "failed (catchTop err w) = failed (catchTop err w')"
  by (simp add: catchTop_def split: thrown.splits)

lemma releaseSteps_outputs:
  "outputs (releaseSteps e gl rf owner repo) =
     [(''release-date'', Text (releaseDateOf e)),
      (''release-timestamp'', Text (releaseTimestampOf e)),
      (''has-previous-release'', Text (bool_toString (fst (previousRelease e)))),
      (''previous-tag'', Text (fst (snd (previousRelease e)))),
      (''previous-release-date'', Text (snd (snd (previousRelease e))))]"
  by (simp add: releaseSteps_def Let_def emptyWorld_def split: prod.splits sum.splits)

lemma releaseSteps_failed: "failed (releaseSteps e gl rf owner repo) = None"
  by (simp add: releaseSteps_def Let_def emptyWorld_def split: prod.splits sum.splits)

lemma releaseSteps_files: "files (releaseSteps e gl rf owner repo) = []"
  by (simp add: releaseSteps_def Let_def emptyWorld_def split: prod.splits sum.splits)

lemma runGroups_unfold:
  assumes sg: "summarizeGroups e key (groupPRsByLabels rel gl)
                 ([], [], info (''Found '' @ nat_toString (length rel) @ '' relevant PRs'') w)
               = (gs, lgs, w2)"
  shows "outputs (runGroups e key gl rel w) =
           outputs w @
           [(''grouped-summaries'', SummariesJson gs),
            (''label-groups'', Text (join '','' (map lg_name lgs))),
            (''total-prs'', Text (nat_toString (length rel))),
            (''has-content'', Text (bool_toString (0 < length lgs)))] @
           (case mkdirSync e of
              Some err \<Rightarrow> []
            | None \<Rightarrow>
               (case writeFileSync e of
                  Some err \<Rightarrow> []
                | None \<Rightarrow>
                    [(''artifact-name'',
                      case uploadArtifact e of
                        Inl err \<Rightarrow> Text []
                      | Inr n \<Rightarrow> Text (''changelog-'' @ releaseTimestampOf e))]))"
    and "failed (runGroups e key gl rel w) =
           (case mkdirSync e of
              Some err \<Rightarrow> failed (catchTop err w)
            | None \<Rightarrow>
               (case writeFileSync e of
                  Some err \<Rightarrow> failed (catchTop err w)
                | None \<Rightarrow> failed w))"
    and "artifactGroups (runGroups e key gl rel w) =
           artifactGroups w @
           (if mkdirSync e = None \<and> writeFileSync e = None then [lgs] else [])"
proof -
  have ol: "onlyLogs w w2"
    using summarize_onlyLogs [of "([], [], info (''Found '' @ nat_toString (length rel)
                 @ '' relevant PRs'') w)" e key "groupPRsByLabels rel gl"] sg
    by (simp add: onlyLogs_def info_def)
  note sg' = sg [simplified]
  from ol have o: "outputs w2 = outputs w" and f: "failed w2 = failed w" and fl: "files w2 = files w"
    by (simp_all add: onlyLogs_def)
  show "outputs (runGroups e key gl rel w) =
           outputs w @
           [(''grouped-summaries'', SummariesJson gs),
            (''label-groups'', Text (join '','' (map lg_name lgs))),
            (''total-prs'', Text (nat_toString (length rel))),
            (''has-content'', Text (bool_toString (0 < length lgs)))] @
           (case mkdirSync e of
              Some err \<Rightarrow> []
            | None \<Rightarrow>
               (case writeFileSync e of
                  Some err \<Rightarrow> []
                | None \<Rightarrow>
                    [(''artifact-name'',
                      case uploadArtifact e of
                        Inl err \<Rightarrow> Text []
                      | Inr n \<Rightarrow> Text (''changelog-'' @ releaseTimestampOf e))]))"
    by (simp add: runGroups_def Let_def sg' o split: option.splits sum.splits)
  show "failed (runGroups e key gl rel w) =
           (case mkdirSync e of
              Some err \<Rightarrow> failed (catchTop err w)
            | None \<Rightarrow>
               (case writeFileSync e of
                  Some err \<Rightarrow> failed (catchTop err w)
                | None \<Rightarrow> failed w))"
    by (simp add: runGroups_def Let_def sg' f catchTop_def split: option.splits sum.splits thrown.splits)
  show "artifactGroups (runGroups e key gl rel w) =
           artifactGroups w @
           (if mkdirSync e = None \<and> writeFileSync e = None then [lgs] else [])"
    by (simp add: runGroups_def Let_def sg' fl artifactGroups_def split: option.splits sum.splits)
qed

section \<open>The object of grouped summaries against the list of groups\<close>

lemma map_of_map_set: "map_of (map_set k v m) = (map_of m)(k \<mapsto> v)"
  by (induction m) (auto simp: fun_upd_twist)

lemma map_of_obj_set_index: "map_of (obj_set_index k v m) = (map_of m)(k \<mapsto> v)"
  by (induction m) (auto simp: fun_upd_twist)

lemma map_of_obj_set: "k \<noteq> ''__proto__'' \<Longrightarrow> map_of (obj_set k v m) = (map_of m)(k \<mapsto> v)"
  by (simp add: obj_set_def map_of_map_set map_of_obj_set_index)

lemma obj_set_proto: "obj_set ''__proto__'' v m = m"
  by (simp add: obj_set_def)

lemma map_set_fresh: "k \<notin> fst ` set m \<Longrightarrow> map_set k v m = m @ [(k, v)]"
  by (induction m) auto

lemma obj_set_plain_fresh:
  "plainName k \<Longrightarrow> k \<notin> fst ` set m \<Longrightarrow> obj_set k v m = m @ [(k, v)]"
  by (simp add: obj_set_def plainName_def map_set_fresh)

lemma summarize_lookup:
  assumes "distinct (map fst gs)"
    and "fst ` set gs \<inter> lg_name ` set lgs = {}"
    and "\<forall>k. map_of obj k =
           (if k = ''__proto__'' then None
            else map_of (map (\<lambda>g. (lg_name g, lg_summary g)) lgs) k)"
  shows "map_of (fst (summarizeGroups e key gs (obj, lgs, w))) k =
           (if k = ''__proto__'' then None
            else map_of (map (\<lambda>g. (lg_name g, lg_summary g))
                           (fst (snd (summarizeGroups e key gs (obj, lgs, w))))) k)"
  using assms
proof (induction gs arbitrary: obj lgs w)
  case Nil
  then show ?case by simp
next
  case (Cons p gs)
  obtain l prs where p: "p = (l, prs)" by (cases p) auto
  show ?case
  proof (cases "prs = []")
    case True
    have "fst ` set gs \<inter> lg_name ` set lgs = {}" using Cons.prems(2) by auto
    with Cons True p show ?thesis by simp
  next
    case False
    from step_shape [OF False, of e key l obj lgs w] obtain s w'
      where st: "summarizeGroup e key l prs (obj, lgs, w) =
        (obj_set l s obj, lgs @ [\<lparr> lg_name = l, lg_prs = prs, lg_summary = s \<rparr>], w')"
      by blast
    let ?lgs' = "lgs @ [\<lparr> lg_name = l, lg_prs = prs, lg_summary = s \<rparr>]"
    have fresh: "l \<notin> lg_name ` set lgs" using Cons.prems(2) p by auto
    then have none: "map_of (map (\<lambda>g. (lg_name g, lg_summary g)) lgs) l = None"
      by (simp add: map_of_eq_None_iff image_image)
    have d: "distinct (map fst gs)" using Cons.prems(1) by simp
    have dj: "fst ` set gs \<inter> lg_name ` set ?lgs' = {}"
      using Cons.prems(1,2) p by auto
    have inv: "\<forall>k. map_of (obj_set l s obj) k =
           (if k = ''__proto__'' then None
            else map_of (map (\<lambda>g. (lg_name g, lg_summary g)) ?lgs') k)"
    proof (cases "l = ''__proto__''")
      case True
      then show ?thesis
        using Cons.prems(3) by (auto simp: obj_set_proto map_add_def split: option.splits)
    next
      case False
      then show ?thesis
        using Cons.prems(3) none
        by (auto simp: map_of_obj_set map_add_def split: option.splits)
    qed
    show ?thesis
      using Cons.IH [OF d dj inv, of w'] by (simp add: p st)
  qed
qed

lemma summarize_order:
  assumes "distinct (map fst gs)"
    and "fst ` set gs \<inter> lg_name ` set lgs = {}"
    and "\<forall>(l, b) \<in> set gs. b \<noteq> [] \<longrightarrow> plainName l"
    and "obj = map (\<lambda>g. (lg_name g, lg_summary g)) lgs"
  shows "fst (summarizeGroups e key gs (obj, lgs, w)) =
           map (\<lambda>g. (lg_name g, lg_summary g))
               (fst (snd (summarizeGroups e key gs (obj, lgs, w))))"
  using assms
proof (induction gs arbitrary: obj lgs w)
  case Nil
  then show ?case by simp
next
  case (Cons p gs)
  obtain l prs where p: "p = (l, prs)" by (cases p) auto
  show ?case
  proof (cases "prs = []")
    case True
    have "fst ` set gs \<inter> lg_name ` set lgs = {}" using Cons.prems(2) by auto
    with Cons True p show ?thesis by simp
  next
    case False
    from step_shape [OF False, of e key l obj lgs w] obtain s w'
      where st: "summarizeGroup e key l prs (obj, lgs, w) =
        (obj_set l s obj, lgs @ [\<lparr> lg_name = l, lg_prs = prs, lg_summary = s \<rparr>], w')"
      by blast
    let ?lgs' = "lgs @ [\<lparr> lg_name = l, lg_prs = prs, lg_summary = s \<rparr>]"
    have fresh: "l \<notin> fst ` set obj"
      using Cons.prems(2,4) p by (auto simp: image_image)
    have pl: "plainName l" using Cons.prems(3) p False by auto
    have d: "distinct (map fst gs)" using Cons.prems(1) by simp
    have dj: "fst ` set gs \<inter> lg_name ` set ?lgs' = {}"
      using Cons.prems(1,2) p by auto
    have pls: "\<forall>(l, b) \<in> set gs. b \<noteq> [] \<longrightarrow> plainName l" using Cons.prems(3) by simp
    have inv: "obj_set l s obj = map (\<lambda>g. (lg_name g, lg_summary g)) ?lgs'"
      using obj_set_plain_fresh [OF pl fresh] Cons.prems(4) by simp
    show ?thesis
      using Cons.IH [OF d dj pls inv, of w'] by (simp add: p st)
  qed
qed

section \<open>The run as a whole\<close>

lemma failed_runGroups:
  "failed (runGroups e key gl rel w) =
     (case mkdirSync e of
        Some err \<Rightarrow> failed (catchTop err w)
      | None \<Rightarrow>
         (case writeFileSync e of
            Some err \<Rightarrow> failed (catchTop err w)
          | None \<Rightarrow> failed w))"
proof -
  obtain gs lgs w2 where
    "summarizeGroups e key (groupPRsByLabels rel gl)
       ([], [], info (''Found '' @ nat_toString (length rel) @ '' relevant PRs'') w)
     = (gs, lgs, w2)"
    using prod_cases3 by blast
  then show ?thesis by (rule runGroups_unfold(2))
qed

lemma failed_runRelease:
  "failed (runRelease e key gl rf owner repo) =
     (case pulls_list e of
        Inl err \<Rightarrow> failed (catchTop err emptyWorld)
      | Inr allPRs \<Rightarrow>
         (case mkdirSync e of
            Some err \<Rightarrow> failed (catchTop err emptyWorld)
          | None \<Rightarrow>
             (case writeFileSync e of
                Some err \<Rightarrow> failed (catchTop err emptyWorld)
              | None \<Rightarrow> None)))"
  using failed_catchTop_world [of _ "releaseSteps e gl rf owner repo" emptyWorld]
  by (simp add: runRelease_def Let_def failed_runGroups releaseSteps_failed
           split: sum.splits option.splits)

lemma run_valid:
  assumes "getInput e ''github-token'' \<noteq> []" and "getInput e ''gemini-api-key'' \<noteq> []"
    and "getInput e ''grouping-labels'' \<noteq> []" and "cfgLabels e \<noteq> []"
    and "context_repo e = Inr (owner, repo)"
  shows "run e = runRelease e (getInput e ''gemini-api-key'') (cfgLabels e) (cfgFeature e) owner repo"
  using assms by (simp add: run_def Let_def cfgLabels_def cfgFeature_def)

lemma run_invalid:
  "getInput e ''github-token'' = [] \<or> getInput e ''gemini-api-key'' = [] \<or>
   getInput e ''grouping-labels'' = [] \<Longrightarrow>
   run e = emptyWorld\<lparr> failed :=
     Some ''Missing required inputs: github-token, gemini-api-key, or grouping-labels'' \<rparr>"
  by (auto simp: run_def Let_def catchTop_def newError_def)

lemma run_no_labels:
  "getInput e ''github-token'' \<noteq> [] \<Longrightarrow> getInput e ''gemini-api-key'' \<noteq> [] \<Longrightarrow>
   getInput e ''grouping-labels'' \<noteq> [] \<Longrightarrow> cfgLabels e = [] \<Longrightarrow>
   run e = emptyWorld\<lparr> failed := Some ''At least one grouping label must be provided'' \<rparr>"
  by (simp add: run_def Let_def catchTop_def newError_def cfgLabels_def)

lemma run_no_context:
  "getInput e ''github-token'' \<noteq> [] \<Longrightarrow> getInput e ''gemini-api-key'' \<noteq> [] \<Longrightarrow>
   getInput e ''grouping-labels'' \<noteq> [] \<Longrightarrow> cfgLabels e \<noteq> [] \<Longrightarrow>
   context_repo e = Inl err \<Longrightarrow> run e = catchTop err emptyWorld"
  by (simp add: run_def Let_def cfgLabels_def)

lemma completedD:
  assumes "completed e"
  shows "getInput e ''github-token'' \<noteq> []" and "getInput e ''gemini-api-key'' \<noteq> []"
    and "getInput e ''grouping-labels'' \<noteq> []" and "cfgLabels e \<noteq> []"
    and "\<exists>owner repo. context_repo e = Inr (owner, repo)"
    and "\<exists>allPRs. pulls_list e = Inr allPRs"
    and "mkdirSync e = None" and "writeFileSync e = None"
proof -
  have f: "failed (run e) = None" using assms by (simp add: completed_def)
  show 1: "getInput e ''github-token'' \<noteq> []" using f run_invalid [of e] by (auto simp: emptyWorld_def)
  show 2: "getInput e ''gemini-api-key'' \<noteq> []" using f run_invalid [of e] by (auto simp: emptyWorld_def)
  show 3: "getInput e ''grouping-labels'' \<noteq> []" using f run_invalid [of e] by (auto simp: emptyWorld_def)
  show 4: "cfgLabels e \<noteq> []" using f run_no_labels [OF 1 2 3] by (auto simp: emptyWorld_def)
  show 5: "\<exists>owner repo. context_repo e = Inr (owner, repo)"
  proof (cases "context_repo e")
    case (Inl err)
    then show ?thesis using f run_no_context [OF 1 2 3 4 Inl] by simp
  next
    case (Inr p)
    then show ?thesis by (cases p) auto
  qed
  then obtain owner repo where c: "context_repo e = Inr (owner, repo)" by blast
  have r: "failed (runRelease e (getInput e ''gemini-api-key'') (cfgLabels e) (cfgFeature e) owner repo) = None"
    using f run_valid [OF 1 2 3 4 c] by simp
  show "\<exists>allPRs. pulls_list e = Inr allPRs"
    using r by (cases "pulls_list e") (simp_all add: failed_runRelease)
  show "mkdirSync e = None"
    using r by (cases "pulls_list e"; cases "mkdirSync e") (simp_all add: failed_runRelease)
  show "writeFileSync e = None"
    using r by (cases "pulls_list e"; cases "mkdirSync e"; cases "writeFileSync e")
               (simp_all add: failed_runRelease)
qed

lemma run_completed:
  assumes "completed e"
  shows "\<exists>gs lgs w w2.
           summarizeGroups e (getInput e ''gemini-api-key'')
             (groupPRsByLabels (filteredPRs e) (cfgLabels e)) ([], [], w) = (gs, lgs, w2) \<and>
           outputs (run e) =
             [(''release-date'', Text (releaseDateOf e)),
              (''release-timestamp'', Text (releaseTimestampOf e)),
              (''has-previous-release'', Text (bool_toString (fst (previousRelease e)))),
              (''previous-tag'', Text (fst (snd (previousRelease e)))),
              (''previous-release-date'', Text (snd (snd (previousRelease e)))),
              (''grouped-summaries'', SummariesJson gs),
              (''label-groups'', Text (join '','' (map lg_name lgs))),
              (''total-prs'', Text (nat_toString (length (filteredPRs e)))),
              (''has-content'', Text (bool_toString (0 < length lgs))),
              (''artifact-name'',
                 case uploadArtifact e of
                   Inl err \<Rightarrow> Text []
                 | Inr n \<Rightarrow> Text (''changelog-'' @ releaseTimestampOf e))] \<and>
           artifactGroups (run e) = [lgs]"
proof -
  note d = completedD [OF assms]
  from d(5) obtain owner repo where c: "context_repo e = Inr (owner, repo)" by blast
  from d(6) obtain allPRs where p: "pulls_list e = Inr allPRs" by blast
  let ?key = "getInput e ''gemini-api-key''"
  let ?w12 = "releaseSteps e (cfgLabels e) (cfgFeature e) owner repo"
  let ?rel = "relevantPRs (cfgLabels e) (cfgFeature e) (sinceDateOf e) allPRs"
  have rel: "filteredPRs e = ?rel" by (simp add: filteredPRs_def p)
  have run: "run e = runGroups e ?key (cfgLabels e) ?rel ?w12"
    using run_valid [OF d(1) d(2) d(3) d(4) c] by (simp add: runRelease_def Let_def p)
  obtain gs lgs w2 where sg:
    "summarizeGroups e ?key (groupPRsByLabels ?rel (cfgLabels e))
       ([], [], info (''Found '' @ nat_toString (length ?rel) @ '' relevant PRs'') ?w12)
     = (gs, lgs, w2)"
    using prod_cases3 by blast
  have o: "outputs (run e) =
             [(''release-date'', Text (releaseDateOf e)),
              (''release-timestamp'', Text (releaseTimestampOf e)),
              (''has-previous-release'', Text (bool_toString (fst (previousRelease e)))),
              (''previous-tag'', Text (fst (snd (previousRelease e)))),
              (''previous-release-date'', Text (snd (snd (previousRelease e)))),
              (''grouped-summaries'', SummariesJson gs),
              (''label-groups'', Text (join '','' (map lg_name lgs))),
              (''total-prs'', Text (nat_toString (length (filteredPRs e)))),
              (''has-content'', Text (bool_toString (0 < length lgs))),
              (''artifact-name'',
                 case uploadArtifact e of
                   Inl err \<Rightarrow> Text []
                 | Inr n \<Rightarrow> Text (''changelog-'' @ releaseTimestampOf e))]"
    by (simp only: run runGroups_unfold(1) [OF sg] releaseSteps_outputs rel d(7) d(8))
       simp
  have a: "artifactGroups (run e) = [lgs]"
    by (simp only: run runGroups_unfold(3) [OF sg] d(7) d(8))
       (simp add: artifactGroups_def releaseSteps_files)
  from sg o a rel show ?thesis by metis
qed

lemma completedI:
  assumes "getInput e ''github-token'' \<noteq> []" and "getInput e ''gemini-api-key'' \<noteq> []"
    and "getInput e ''grouping-labels'' \<noteq> []" and "cfgLabels e \<noteq> []"
    and "context_repo e = Inr (owner, repo)" and "pulls_list e = Inr allPRs"
    and "mkdirSync e = None" and "writeFileSync e = None"
  shows "completed e"
  using run_valid [OF assms(1-5)] assms(6-8)
  by (simp add: completed_def failed_runRelease)

lemma failed_run:
  "failed (run e) =
     (if getInput e ''github-token'' = [] \<or> getInput e ''gemini-api-key'' = [] \<or>
         getInput e ''grouping-labels'' = []
      then Some ''Missing required inputs: github-token, gemini-api-key, or grouping-labels''
      else if cfgLabels e = [] then Some ''At least one grouping label must be provided''
      else (case context_repo e of
              Inl err \<Rightarrow> failed (catchTop err emptyWorld)
            | Inr p \<Rightarrow>
               (case pulls_list e of
                  Inl err \<Rightarrow> failed (catchTop err emptyWorld)
                | Inr allPRs \<Rightarrow>
                   (case mkdirSync e of
                      Some err \<Rightarrow> failed (catchTop err emptyWorld)
                    | None \<Rightarrow>
                       (case writeFileSync e of
                          Some err \<Rightarrow> failed (catchTop err emptyWorld)
                        | None \<Rightarrow> None)))))"
proof -
  consider (a) "getInput e ''github-token'' = [] \<or> getInput e ''gemini-api-key'' = [] \<or>
                getInput e ''grouping-labels'' = []"
    | (b) "getInput e ''github-token'' \<noteq> []" "getInput e ''gemini-api-key'' \<noteq> []"
          "getInput e ''grouping-labels'' \<noteq> []" "cfgLabels e = []"
    | (c) err where "getInput e ''github-token'' \<noteq> []" "getInput e ''gemini-api-key'' \<noteq> []"
          "getInput e ''grouping-labels'' \<noteq> []" "cfgLabels e \<noteq> []" "context_repo e = Inl err"
    | (d) owner repo where "getInput e ''github-token'' \<noteq> []" "getInput e ''gemini-api-key'' \<noteq> []"
          "getInput e ''grouping-labels'' \<noteq> []" "cfgLabels e \<noteq> []"
          "context_repo e = Inr (owner, repo)"
    by (cases "context_repo e") auto
  then show ?thesis
  proof cases
    case a
    then show ?thesis using run_invalid [of e] by auto
  next
    case b
    then show ?thesis using run_no_labels [of e] by simp
  next
    case c
    then show ?thesis using run_no_context [of e err] by simp
  next
    case d
    then show ?thesis using run_valid [of e owner repo] by (simp add: failed_runRelease)
  qed
qed

lemma runRelease_outputs:
  "\<exists>rest. outputs (runRelease e key gl rf owner repo) =
            outputs (releaseSteps e gl rf owner repo) @ rest \<and>
          fst ` set rest \<subseteq> {''grouped-summaries'', ''label-groups'', ''total-prs'',
                               ''has-content'', ''artifact-name''}"
proof (cases "pulls_list e")
  case (Inl err)
  then show ?thesis by (simp add: runRelease_def)
next
  case (Inr allPRs)
  let ?w12 = "releaseSteps e gl rf owner repo"
  let ?rel = "relevantPRs gl rf (sinceDateOf e) allPRs"
  obtain gs lgs w2 where sg:
    "summarizeGroups e key (groupPRsByLabels ?rel gl)
       ([], [], info (''Found '' @ nat_toString (length ?rel) @ '' relevant PRs'') ?w12)
     = (gs, lgs, w2)"
    using prod_cases3 by blast
  show ?thesis
    by (simp only: runRelease_def Let_def Inr sum.case runGroups_unfold(1) [OF sg])
       (auto split: option.splits)
qed

lemma getOutput_prefix:
  assumes "outputs w = first @ rest" and "nm \<notin> fst ` set rest"
  shows "getOutput nm w = map_of (rev first) nm"
proof -
  have "map_of (rev rest) nm = None"
    using assms(2) by (simp add: map_of_eq_None_iff)
  then show ?thesis
    by (simp add: getOutput_def assms(1) map_add_def)
qed

section \<open>The decimal text of a number\<close>

lemma digit_cases:
  "(d::nat) < 10 \<Longrightarrow> d = 0 \<or> d = 1 \<or> d = 2 \<or> d = 3 \<or> d = 4 \<or> d = 5 \<or> d = 6 \<or> d = 7 \<or> d = 8 \<or> d = 9"
  by arith

lemma of_char_digitChar: "d < 10 \<Longrightarrow> (of_char (digitChar d) :: int) = 48 + int d"
  using digit_cases [of d] by (auto simp: digitChar_def)

lemma isDigit_digitChar: "d < 10 \<Longrightarrow> isDigit (digitChar d)"
  using digit_cases [of d] by (auto simp: digitChar_def isDigit_def)

lemma digits_value_snoc:
  "digits_value (s @ [c]) = 10 * digits_value s + (of_char c - 48)"
  by (simp add: digits_value_def)

lemma nat_toString_decimal:
  "digits_value (nat_toString n) = int n \<and> list_all isDigit (nat_toString n)"
proof (induction n rule: nat_toString.induct)
  case (1 n)
  show ?case
  proof (cases "n < 10")
    case True
    then show ?thesis
      by (simp add: nat_toString.simps [of n] digits_value_def of_char_digitChar
            isDigit_digitChar)
  next
    case False
    have m: "n mod 10 < 10" by simp
    have "(of_char (digitChar (n mod 10)) :: int) = 48 + int (n mod 10)"
      using m by (rule of_char_digitChar)
    moreover have "isDigit (digitChar (n mod 10))" using m by (rule isDigit_digitChar)
    ultimately show ?thesis
      using False 1 by (simp add: nat_toString.simps [of n] digits_value_snoc zmod_int zdiv_int)
  qed
qed

section \<open>The claims on the run\<close>

text \<open>
  Claim C5. When the token, the key or the label list is empty, the run ends with the
  failure signal, its message the text that begins with \<open>Missing required inputs\<close>, and
  nothing else has happened: no output is set, no request sent, no file written. When the
  label list has no entry left after splitting and trimming, the run ends with the failure
  signal too, and again no output is set.
\<close>

theorem C5_missing_inputs:
  "(getInput e ''github-token'' = [] \<or> getInput e ''gemini-api-key'' = [] \<or>
    getInput e ''grouping-labels'' = [] \<longrightarrow>
      run e = emptyWorld\<lparr> failed :=
        Some ''Missing required inputs: github-token, gemini-api-key, or grouping-labels'' \<rparr>) \<and>
   (cfgLabels e = [] \<longrightarrow>
      failed (run e) \<noteq> None \<and> outputs (run e) = [] \<and> requests (run e) = [] \<and>
      files (run e) = []) \<and>
   outputs emptyWorld = [] \<and> requests emptyWorld = [] \<and> files emptyWorld = []"
proof -
  have 1: "getInput e ''github-token'' = [] \<or> getInput e ''gemini-api-key'' = [] \<or>
    getInput e ''grouping-labels'' = [] \<longrightarrow>
      run e = emptyWorld\<lparr> failed :=
        Some ''Missing required inputs: github-token, gemini-api-key, or grouping-labels'' \<rparr>"
    using run_invalid [of e] by blast
  have 2: "cfgLabels e = [] \<longrightarrow>
      failed (run e) \<noteq> None \<and> outputs (run e) = [] \<and> requests (run e) = [] \<and>
      files (run e) = []"
  proof
    assume c: "cfgLabels e = []"
    show "failed (run e) \<noteq> None \<and> outputs (run e) = [] \<and> requests (run e) = [] \<and>
      files (run e) = []"
    proof (cases "getInput e ''github-token'' = [] \<or> getInput e ''gemini-api-key'' = [] \<or>
                  getInput e ''grouping-labels'' = []")
      case True
      then show ?thesis using run_invalid [of e] by (simp add: emptyWorld_def)
    next
      case False
      then show ?thesis using run_no_labels [of e] c by (simp add: emptyWorld_def)
    qed
  qed
  show ?thesis using 1 2 by (simp add: emptyWorld_def)
qed

theorem C5_missing_inputs_witness:
  "getInput missingTokenEnv ''github-token'' = [] \<and>
   failed (run missingTokenEnv) =
     Some ''Missing required inputs: github-token, gemini-api-key, or grouping-labels'' \<and>
   outputs (run missingTokenEnv) = [] \<and>
   cfgLabels blankLabelsEnv = [] \<and> failed (run blankLabelsEnv) \<noteq> None \<and>
   outputs (run blankLabelsEnv) = []"
  using C5_missing_inputs [of missingTokenEnv] C5_missing_inputs [of blankLabelsEnv]
  by (simp add: missingTokenEnv_def blankLabelsEnv_def mockEnv_def emptyWorld_def cfgLabels_def
        parseGroupingLabels_def trim_def isWhiteSpace_def)

lemma bool_toString_true [simp]: "(bool_toString b = ''true'') = b"
  by (simp add: bool_toString_def)

lemma bool_toString_false [simp]: "(bool_toString b = ''false'') = (\<not> b)"
  by (simp add: bool_toString_def)

lemma emitted_nonempty:
  "(emitted prs gl \<noteq> []) = (\<exists>l \<in> set gl. members l prs \<noteq> [])"
  by (auto simp: emitted_def filter_empty_conv set_configured)

text \<open>
  Claim C6. On a completed run the output \<open>total-prs\<close> is the decimal text of the number
  of filtered pull requests, \<open>has-content\<close> is \<open>true\<close> exactly when some configured
  label has a bucket with a member (and \<open>false\<close> otherwise), and \<open>label-groups\<close> is the
  comma-joined list of the labels whose bucket has a member, in configuration order. The
  text \<open>nat_toString n\<close> is made of digits and its decimal value is \<open>n\<close>
  (\<open>nat_toString_decimal\<close>).
\<close>

theorem C6_outputs:
  assumes "completed e"
  shows "getOutput ''total-prs'' (run e) = Some (Text (nat_toString (length (filteredPRs e)))) \<and>
         getOutput ''has-content'' (run e) =
           Some (Text (bool_toString (\<exists>l \<in> set (cfgLabels e). members l (filteredPRs e) \<noteq> []))) \<and>
         (getOutput ''has-content'' (run e) = Some (Text ''true'') \<longleftrightarrow>
            (\<exists>l \<in> set (cfgLabels e). members l (filteredPRs e) \<noteq> [])) \<and>
         getOutput ''label-groups'' (run e) =
           Some (Text (join '','' (map fst (emitted (filteredPRs e) (cfgLabels e)))))"
proof -
  from run_completed [OF assms] obtain gs lgs w w2 where
    sg: "summarizeGroups e (getInput e ''gemini-api-key'')
           (groupPRsByLabels (filteredPRs e) (cfgLabels e)) ([], [], w) = (gs, lgs, w2)"
    and o: "outputs (run e) =
             [(''release-date'', Text (releaseDateOf e)),
              (''release-timestamp'', Text (releaseTimestampOf e)),
              (''has-previous-release'', Text (bool_toString (fst (previousRelease e)))),
              (''previous-tag'', Text (fst (snd (previousRelease e)))),
              (''previous-release-date'', Text (snd (snd (previousRelease e)))),
              (''grouped-summaries'', SummariesJson gs),
              (''label-groups'', Text (join '','' (map lg_name lgs))),
              (''total-prs'', Text (nat_toString (length (filteredPRs e)))),
              (''has-content'', Text (bool_toString (0 < length lgs))),
              (''artifact-name'',
                 case uploadArtifact e of
                   Inl err \<Rightarrow> Text []
                 | Inr n \<Rightarrow> Text (''changelog-'' @ releaseTimestampOf e))]"
    by blast
  have m: "map (\<lambda>g. (lg_name g, lg_prs g)) lgs = emitted (filteredPRs e) (cfgLabels e)"
    using summarize_members [of e "getInput e ''gemini-api-key''"
            "groupPRsByLabels (filteredPRs e) (cfgLabels e)" "([], [], w)"] sg
    by (simp add: groupPRsByLabels_eq emitted_def)
  have "map fst (map (\<lambda>g. (lg_name g, lg_prs g)) lgs) = map lg_name lgs"
    by (simp add: comp_def)
  with m have names: "map lg_name lgs = map fst (emitted (filteredPRs e) (cfgLabels e))"
    by simp
  have "(lgs \<noteq> []) = (emitted (filteredPRs e) (cfgLabels e) \<noteq> [])"
    using m by (metis map_is_Nil_conv)
  then have ne: "(lgs \<noteq> []) = (\<exists>l \<in> set (cfgLabels e). members l (filteredPRs e) \<noteq> [])"
    by (simp add: emitted_nonempty)
  have 1: "getOutput ''total-prs'' (run e) = Some (Text (nat_toString (length (filteredPRs e))))"
    by (simp add: getOutput_def o)
  have 2: "getOutput ''has-content'' (run e) =
           Some (Text (bool_toString (\<exists>l \<in> set (cfgLabels e). members l (filteredPRs e) \<noteq> [])))"
    by (simp add: getOutput_def o ne)
  have 3: "getOutput ''label-groups'' (run e) =
           Some (Text (join '','' (map fst (emitted (filteredPRs e) (cfgLabels e)))))"
    by (simp add: getOutput_def o names)
  from 1 2 3 show ?thesis by simp
qed

lemma completed_mockEnv: "completed mockEnv"
  by (rule completedI [where owner = "''test-owner''" and repo = "''test-repo''" and allPRs = mockPRs])
     (simp_all add: mockEnv_def mockInputs_def cfgLabels_def parseGroupingLabels_def trim_def
        isWhiteSpace_def)

lemma filteredPRs_mockEnv: "filteredPRs mockEnv = map projectPR [mockPRs ! 0, mockPRs ! 1]"
  by (simp add: filteredPRs_def mockEnv_def mockInputs_def cfgLabels_def cfgFeature_def
        parseGroupingLabels_def trim_def isWhiteSpace_def sinceDateOf_def previousRelease_def
        relevantPRs_def keepPR_def mockPRs_def labelNames_def)

lemma cfgLabels_mockEnv: "cfgLabels mockEnv = [''writer'', ''ui'']"
  by (simp add: mockEnv_def mockInputs_def cfgLabels_def parseGroupingLabels_def trim_def
        isWhiteSpace_def)

theorem C6_outputs_witness:
  "completed mockEnv \<and>
   getOutput ''total-prs'' (run mockEnv) = Some (Text ''2'') \<and>
   getOutput ''has-content'' (run mockEnv) = Some (Text ''true'') \<and>
   getOutput ''label-groups'' (run mockEnv) = Some (Text ''writer,ui'')"
  using C6_outputs [OF completed_mockEnv] completed_mockEnv
  by (simp add: filteredPRs_mockEnv cfgLabels_mockEnv emitted_def members_def configured_def
        projectPR_def mockPRs_def labelNames_def nat_toString.simps [of "Suc (Suc 0)"] digitChar_def
        bool_toString_def)

lemma askGemini_fails: "endpointFails r \<Longrightarrow> \<exists>err. askGemini r fallback = Inl err"
  by (cases r) (auto simp: endpointFails_def askGemini_def)

lemma failed_run_fetch: "failed (run (e\<lparr> fetch := f \<rparr>)) = failed (run e)"
  by (simp add: failed_run cfgLabels_def split: sum.splits option.splits)

text \<open>
  Claim C7. When the endpoint fails on the request about to be made (the request throws or
  the status is not \<open>ok\<close>), the summary stage on a non-empty list returns
  \<open>Failed to generate AI summary\<close> and the chat stage, on a text it does not pass
  through, returns \<open>Failed to generate Slack summary\<close>; each logs one warning and
  touches nothing but the logs. Neither stage throws, and the failure signal of a run does
  not depend on what the endpoint answers.
\<close>

theorem C7_endpoint_failure:
  assumes "\<forall>url prompt. endpointFails (fetch e (length (requests w)) url prompt)"
  shows "(prs \<noteq> [] \<longrightarrow>
            fst (generateAISummary e prs key g w) = ''Failed to generate AI summary'' \<and>
            length (warnings (snd (generateAISummary e prs key g w))) = Suc (length (warnings w)) \<and>
            onlyLogs w (snd (generateAISummary e prs key g w))) \<and>
         (md \<noteq> ''No new changes were released in this period.'' \<and>
          md \<noteq> ''Failed to generate AI summary'' \<longrightarrow>
            fst (convertToSlackFormat e md key w) = ''Failed to generate Slack summary'' \<and>
            length (warnings (snd (convertToSlackFormat e md key w))) = Suc (length (warnings w)) \<and>
            onlyLogs w (snd (convertToSlackFormat e md key w))) \<and>
         failed (run (e\<lparr> fetch := f \<rparr>)) = failed (run e)"
proof -
  have a: "\<And>url prompt fallback.
             \<exists>err. askGemini (fetch e (length (requests w)) url prompt) fallback = Inl err"
    using assms askGemini_fails by blast
  have 1: "prs \<noteq> [] \<longrightarrow>
            fst (generateAISummary e prs key g w) = ''Failed to generate AI summary'' \<and>
            length (warnings (snd (generateAISummary e prs key g w))) = Suc (length (warnings w))"
  proof
    assume ne: "prs \<noteq> []"
    let ?ctx = "case g of None \<Rightarrow> [] | Some gn \<Rightarrow> if gn = [] then [] else '' for '' @ gn"
    from a obtain err where
      "askGemini (fetch e (length (requests w)) (geminiUrl key)
                   (summaryPrompt ?ctx (stringify_prs e prs)))
         ''Failed to generate summary'' = Inl err"
      by blast
    then show "fst (generateAISummary e prs key g w) = ''Failed to generate AI summary'' \<and>
            length (warnings (snd (generateAISummary e prs key g w))) = Suc (length (warnings w))"
      using ne by (simp add: generateAISummary_def Let_def warning_def)
  qed
  have 2: "md \<noteq> ''No new changes were released in this period.'' \<and>
          md \<noteq> ''Failed to generate AI summary'' \<longrightarrow>
            fst (convertToSlackFormat e md key w) = ''Failed to generate Slack summary'' \<and>
            length (warnings (snd (convertToSlackFormat e md key w))) = Suc (length (warnings w))"
  proof
    assume ne: "md \<noteq> ''No new changes were released in this period.'' \<and>
                md \<noteq> ''Failed to generate AI summary''"
    from a obtain err where
      "askGemini (fetch e (length (requests w)) (geminiUrl key) (slackPrompt md))
         ''Failed to generate Slack summary'' = Inl err"
      by blast
    then show "fst (convertToSlackFormat e md key w) = ''Failed to generate Slack summary'' \<and>
            length (warnings (snd (convertToSlackFormat e md key w))) = Suc (length (warnings w))"
      using ne by (simp add: convertToSlackFormat_def Let_def warning_def)
  qed
  from 1 2 show ?thesis
    using gen_onlyLogs [of w e prs key g] conv_onlyLogs [of w e md key] failed_run_fetch [where e = e and f = f]
    by blast
qed

theorem C7_endpoint_failure_witness:
  "(\<forall>url prompt. endpointFails (fetch apiErrorEnv (length (requests emptyWorld)) url prompt)) \<and>
   generateAISummary apiErrorEnv [bothPR] ''k'' (Some ''ui'') emptyWorld =
     (''Failed to generate AI summary'',
      emptyWorld\<lparr> warnings := [''Failed to generate AI summary for ui: Error: Gemini API error: API Error''],
                   requests := [(geminiUrl ''k'', summaryPrompt '' for ui'' ''[]'')] \<rparr>) \<and>
   fst (convertToSlackFormat apiErrorEnv ''### Notes'' ''k'' emptyWorld) =
     ''Failed to generate Slack summary'' \<and>
   failed (run apiErrorEnv) = None"
proof -
  have h: "\<forall>url prompt. endpointFails (fetch apiErrorEnv (length (requests emptyWorld)) url prompt)"
    by (simp add: apiErrorEnv_def mockEnv_def endpointFails_def)
  have g: "generateAISummary apiErrorEnv [bothPR] ''k'' (Some ''ui'') emptyWorld =
     (''Failed to generate AI summary'',
      emptyWorld\<lparr> warnings := [''Failed to generate AI summary for ui: Error: Gemini API error: API Error''],
                   requests := [(geminiUrl ''k'', summaryPrompt '' for ui'' ''[]'')] \<rparr>)"
    by (simp add: generateAISummary_def Let_def apiErrorEnv_def mockEnv_def askGemini_def
          newError_def warning_def emptyWorld_def)
  have f: "failed (run mockEnv) = None"
    using completed_mockEnv by (simp add: completed_def)
  show ?thesis
    using C7_endpoint_failure [OF h, where prs = "[bothPR]" and key = "''k''"
            and g = "Some ''ui''" and md = "''### Notes''" and f = "fetch mockEnv"] h g f
    by (simp add: apiErrorEnv_def)
qed

section \<open>Timestamps as instants\<close>

lemma digits_value_foldl:
  "foldl (\<lambda>n c. 10 * n + (of_char c - 48)) (n::int) s =
     n * 10 ^ length s + foldl (\<lambda>n c. 10 * n + (of_char c - 48)) 0 s"
proof (induction s arbitrary: n)
  case Nil
  show ?case by simp
next
  case (Cons a s)
  show ?case
    using Cons.IH [of "10 * n + (of_char a - 48)"] Cons.IH [of "of_char a - 48"]
    by (simp add: algebra_simps)
qed

lemma digits_value_Cons:
  "digits_value (a # s) = (of_char a - 48) * 10 ^ length s + digits_value s"
  using digits_value_foldl [of "of_char a - 48" s] by (simp add: digits_value_def)

lemma digit_range: "isDigit a \<Longrightarrow> 0 \<le> (of_char a :: int) - 48 \<and> (of_char a :: int) - 48 \<le> 9"
proof -
  assume "isDigit a"
  then have "48 \<le> (of_char a :: nat) \<and> (of_char a :: nat) \<le> 57" by (simp add: isDigit_def)
  then have "48 \<le> int (of_char a) \<and> int (of_char a) \<le> 57" by linarith
  then show ?thesis by (simp add: of_nat_of_char)
qed

lemma digits_value_bound:
  "list_all isDigit s \<Longrightarrow> 0 \<le> digits_value s \<and> digits_value s < 10 ^ length s"
proof (induction s)
  case Nil
  show ?case by (simp add: digits_value_def)
next
  case (Cons a s)
  let ?P = "(10::int) ^ length s"
  let ?x = "(of_char a :: int) - 48"
  from Cons have ih: "0 \<le> digits_value s" "digits_value s < ?P" by simp_all
  have d: "0 \<le> ?x" "?x \<le> 9"
    using Cons.prems digit_range [of a] by simp_all
  have u: "?x * ?P \<le> 9 * ?P"
    using d(2) by (simp add: mult_right_mono)
  have l: "0 \<le> ?x * ?P"
    using d(1) by simp
  have "0 \<le> ?x * ?P + digits_value s" using l ih(1) by linarith
  moreover have "?x * ?P + digits_value s < 10 * ?P" using u ih(2) by linarith
  ultimately show ?case by (simp add: digits_value_Cons)
qed

lemma of_char_less_digit:
  "((of_char a :: nat) < of_char b) = ((of_char a :: int) - 48 < of_char b - 48)"
proof -
  have "((of_char a :: nat) < of_char b) = (int (of_char a) < int (of_char b))" by simp
  then show ?thesis by (simp add: of_nat_of_char)
qed

lemma js_str_le_Cons:
  "js_str_le (a # s) (b # t) =
     ((of_char a :: int) - 48 < of_char b - 48 \<or> (a = b \<and> js_str_le s t))"
proof -
  have inj: "((of_char a :: int) - 48 = of_char b - 48) = (a = b)" by simp
  have "\<not> (of_char a :: int) - 48 < of_char b - 48 \<Longrightarrow>
        \<not> (of_char b :: int) - 48 < of_char a - 48 \<Longrightarrow> a = b"
    using inj by linarith
  moreover have "a = b \<Longrightarrow> \<not> (of_char a :: int) - 48 < of_char b - 48" by simp
  ultimately show ?thesis
    by (auto simp: of_char_less_digit)
qed

lemma js_str_le_digits:
  "length s = length t \<Longrightarrow> list_all isDigit s \<Longrightarrow> list_all isDigit t \<Longrightarrow>
   js_str_le s t = (digits_value s \<le> digits_value t)"
proof (induction s t rule: list_induct2)
  case Nil
  show ?case by simp
next
  case (Cons a s b t)
  let ?P = "(10::int) ^ length s"
  let ?x = "(of_char a :: int) - 48"
  let ?y = "(of_char b :: int) - 48"
  have ih: "js_str_le s t = (digits_value s \<le> digits_value t)" using Cons by simp
  have bs: "0 \<le> digits_value s" "digits_value s < ?P"
    using Cons.prems(1) digits_value_bound [of s] by simp_all
  have bt: "0 \<le> digits_value t" "digits_value t < ?P"
    using Cons.prems(2) Cons.hyps digits_value_bound [of t] by simp_all
  have P: "0 < ?P" by simp
  have v: "digits_value (a # s) = ?x * ?P + digits_value s"
          "digits_value (b # t) = ?y * ?P + digits_value t"
    using Cons.hyps by (simp_all add: digits_value_Cons)
  consider (lt) "?x < ?y" | (eq) "?x = ?y" | (gt) "?y < ?x" by linarith
  then show ?case
  proof cases
    case lt
    then have "?x + 1 \<le> ?y" by linarith
    then have "(?x + 1) * ?P \<le> ?y * ?P" using P by (simp only: mult_right_mono less_imp_le)
    then have "?x * ?P + ?P \<le> ?y * ?P" by (simp add: algebra_simps)
    then have "?x * ?P + digits_value s \<le> ?y * ?P + digits_value t"
      using bs bt by linarith
    with lt show ?thesis by (simp only: js_str_le_Cons v) simp
  next
    case eq
    then have ab: "a = b" by simp
    show ?thesis unfolding js_str_le_Cons v using ih ab by simp
  next
    case gt
    then have "?y + 1 \<le> ?x" by linarith
    then have "(?y + 1) * ?P \<le> ?x * ?P" using P by (simp only: mult_right_mono less_imp_le)
    then have "?y * ?P + ?P \<le> ?x * ?P" by (simp add: algebra_simps)
    then have n: "\<not> ?x * ?P + digits_value s \<le> ?y * ?P + digits_value t"
      using bs bt by linarith
    have ne: "a \<noteq> b" using gt by auto
    have nl: "\<not> ?x < ?y" using gt by linarith
    show ?thesis using n ne nl by (simp only: js_str_le_Cons v) simp
  qed
qed

lemma shape_Cons: "shape (a # s) = (if isDigit a then CHR ''0'' else a) # shape s"
  by (simp add: shape_def)

lemma isDigit_zero: "isDigit CHR ''0''"
  by (simp add: isDigit_def)

lemma js_str_le_same: "js_str_le (a # s) (a # t) = js_str_le s t"
  by simp

lemma js_str_le_shape:
  "shape s = shape t \<Longrightarrow>
   js_str_le s t = js_str_le (filter isDigit s) (filter isDigit t) \<and>
   length (filter isDigit s) = length (filter isDigit t)"
proof (induction s arbitrary: t)
  case Nil
  then show ?case by (simp add: shape_def)
next
  case (Cons a s)
  then obtain b t' where t: "t = b # t'" by (cases t) (auto simp: shape_def)
  have h: "(if isDigit a then CHR ''0'' else a) = (if isDigit b then CHR ''0'' else b)"
    and r: "shape s = shape t'"
    using Cons.prems by (simp_all add: t shape_Cons)
  note ih = Cons.IH [OF r]
  show ?case
  proof (cases "isDigit a")
    case True
    then have b: "isDigit b" using h isDigit_zero by (auto split: if_splits)
    show ?thesis using True b ih by (simp only: t filter.simps js_str_le_Cons if_True) simp
  next
    case False
    then have b: "\<not> isDigit b" and ab: "a = b" using h isDigit_zero by (auto split: if_splits)
    show ?thesis using False b ih by (simp add: t ab)
  qed
qed

lemma js_str_le_numbers:
  assumes "shape s = shape t"
  shows "js_str_le s t = (digits_value (filter isDigit s) \<le> digits_value (filter isDigit t))"
proof -
  have "js_str_le (filter isDigit s) (filter isDigit t) =
          (digits_value (filter isDigit s) \<le> digits_value (filter isDigit t))"
    using js_str_le_shape [OF assms]
    by (intro js_str_le_digits) (simp_all add: list_all_iff)
  then show ?thesis using js_str_le_shape [OF assms] by simp
qed

lemma strictlyAfter_same_format:
  assumes "shape m = shape cutoff" and "instant cutoff \<noteq> None"
  shows "strictlyAfter m cutoff = js_str_gt m cutoff"
  using assms js_str_le_numbers [OF assms(1)]
  by (auto simp: strictlyAfter_def instant_def js_str_gt_def split: if_splits)

lemma keepPR_same_format:
  assumes "\<And>m. raw_merged_at pr = Some m \<Longrightarrow> m = [] \<or> shape m = shape since"
    and "instant since \<noteq> None"
  shows "keepPR gl rf since pr = spec_included gl rf since pr"
proof (cases "raw_merged_at pr")
  case None
  then show ?thesis by (simp add: keepPR_def spec_included_def)
next
  case (Some m)
  show ?thesis
  proof (cases "m = []")
    case True
    then show ?thesis by (simp add: keepPR_def spec_included_def Some)
  next
    case False
    then have "shape m = shape since" using assms(1) Some by blast
    then have "strictlyAfter m since = (\<not> js_str_le m since)"
      using strictlyAfter_same_format assms(2) by (simp add: js_str_gt_def)
    then show ?thesis
      by (auto simp: keepPR_def spec_included_def Some Let_def list_ex_iff)
  qed
qed

lemma sinceDateOf_boundaryEnv: "sinceDateOf boundaryEnv = ''2024-01-16T08:53:20.999Z''"
  by (simp add: sinceDateOf_def previousRelease_def boundaryEnv_def mockEnv_def)

lemma cfg_boundaryEnv: "cfgLabels boundaryEnv = [''writer'', ''ui''] \<and> \<not> cfgFeature boundaryEnv"
  by (simp add: boundaryEnv_def mockEnv_def mockInputs_def cfgLabels_def cfgFeature_def
        parseGroupingLabels_def trim_def isWhiteSpace_def)

text \<open>
  Claim C1. A fetched pull request is claimed to pass the filter exactly when its merge
  timestamp is present, not empty and strictly after the cutoff, its labels meet the
  grouping labels and, with the flag set, contain \<open>feature\<close>. The filter compares the
  two timestamps as texts. Where both have the same shape that is the order of the instants
  (\<open>keepPR_same_format\<close>), as when the cutoff is the creation time of the previous
  release. The seven-day cutoff is written with milliseconds and the merge timestamps are
  not: with the clock at 08:53:20.999 a pull request merged at 08:53:20 of the cutoff day,
  999 milliseconds before the cutoff, passes the filter and is in the filtered list of the
  run.
\<close>

theorem C1_boundary_kept:
  "sinceDateOf boundaryEnv = ''2024-01-16T08:53:20.999Z'' \<and>
   raw_merged_at boundaryPR = Some ''2024-01-16T08:53:20Z'' \<and>
   instant ''2024-01-16T08:53:20Z'' = Some 20240116085320000 \<and>
   instant ''2024-01-16T08:53:20.999Z'' = Some 20240116085320999 \<and>
   \<not> strictlyAfter ''2024-01-16T08:53:20Z'' (sinceDateOf boundaryEnv) \<and>
   keepPR (cfgLabels boundaryEnv) (cfgFeature boundaryEnv) (sinceDateOf boundaryEnv) boundaryPR \<and>
   filteredPRs boundaryEnv = [projectPR boundaryPR]"
proof -
  have i1: "instant ''2024-01-16T08:53:20Z'' = Some 20240116085320000"
    by (simp add: instant_def shape_def isDigit_def digits_value_def)
  have i2: "instant ''2024-01-16T08:53:20.999Z'' = Some 20240116085320999"
    by (simp add: instant_def shape_def isDigit_def digits_value_def)
  have m: "raw_merged_at boundaryPR = Some ''2024-01-16T08:53:20Z''"
    by (simp add: boundaryPR_def)
  have l: "labelNames boundaryPR = [''ui'']" by (simp add: labelNames_def boundaryPR_def)
  have n: "\<not> strictlyAfter ''2024-01-16T08:53:20Z'' ''2024-01-16T08:53:20.999Z''"
    by (simp add: strictlyAfter_def i1 i2)
  have k: "keepPR [''writer'', ''ui''] False ''2024-01-16T08:53:20.999Z'' boundaryPR"
    by (simp add: keepPR_def m l)
  have p: "pulls_list boundaryEnv = Inr [boundaryPR]"
    by (simp add: boundaryEnv_def)
  have f: "filteredPRs boundaryEnv = [projectPR boundaryPR]"
    using k cfg_boundaryEnv
    by (simp add: filteredPRs_def p relevantPRs_def sinceDateOf_boundaryEnv)
  show ?thesis
    using i1 i2 m n k f cfg_boundaryEnv by (simp add: sinceDateOf_boundaryEnv)
qed

section \<open>The artifact of a run and the fallback cutoff\<close>

lemma run_artifact_members:
  assumes "completed e"
  shows "map (map (\<lambda>g. (lg_name g, lg_prs g))) (artifactGroups (run e)) =
           [emitted (filteredPRs e) (cfgLabels e)]"
proof -
  from run_completed [OF assms] obtain gs lgs w w2 where
    sg: "summarizeGroups e (getInput e ''gemini-api-key'')
           (groupPRsByLabels (filteredPRs e) (cfgLabels e)) ([], [], w) = (gs, lgs, w2)"
    and a: "artifactGroups (run e) = [lgs]"
    by blast
  have "map (\<lambda>g. (lg_name g, lg_prs g)) lgs = emitted (filteredPRs e) (cfgLabels e)"
    using summarize_members [of e "getInput e ''gemini-api-key''"
            "groupPRsByLabels (filteredPRs e) (cfgLabels e)" "([], [], w)"] sg
    by (simp add: groupPRsByLabels_eq emitted_def)
  then show ?thesis by (simp add: a)
qed

lemma run_total_prs:
  assumes "completed e"
  shows "getOutput ''total-prs'' (run e) = Some (Text (nat_toString (length (filteredPRs e))))"
proof -
  from run_completed [OF assms] obtain gs lgs w w2 where
    sg: "summarizeGroups e (getInput e ''gemini-api-key'')
           (groupPRsByLabels (filteredPRs e) (cfgLabels e)) ([], [], w) = (gs, lgs, w2)"
    and o: "outputs (run e) =
             [(''release-date'', Text (releaseDateOf e)),
              (''release-timestamp'', Text (releaseTimestampOf e)),
              (''has-previous-release'', Text (bool_toString (fst (previousRelease e)))),
              (''previous-tag'', Text (fst (snd (previousRelease e)))),
              (''previous-release-date'', Text (snd (snd (previousRelease e)))),
              (''grouped-summaries'', SummariesJson gs),
              (''label-groups'', Text (join '','' (map lg_name lgs))),
              (''total-prs'', Text (nat_toString (length (filteredPRs e)))),
              (''has-content'', Text (bool_toString (0 < length lgs))),
              (''artifact-name'',
                 case uploadArtifact e of
                   Inl err \<Rightarrow> Text []
                 | Inr n \<Rightarrow> Text (''changelog-'' @ releaseTimestampOf e))]"
    by blast
  show ?thesis by (simp add: getOutput_def o)
qed

lemma emitted_member:
  "l \<in> set gl \<Longrightarrow> members l prs \<noteq> [] \<Longrightarrow> (l, members l prs) \<in> set (emitted prs gl)"
  by (auto simp: emitted_def set_configured)

text \<open>
  Claim C9. Membership is counted per occurrence of the label: the bucket of a grouping
  label holds each pull request as many times as it stands in the list times the number of
  occurrences of the label among its labels; that bucket, when it has members, is the
  member list of the group the loop emits, and on a completed run the groups of the written
  artifact document are exactly the buckets with members, each with its member list.
\<close>

theorem C9_label_multiplicity:
  assumes "l \<in> set gl"
  shows "map_of (groupPRsByLabels prs gl) l = Some (members l prs) \<and>
         count_list (members l prs) pr = count_list prs pr * count_list (labels pr) l \<and>
         (members l prs \<noteq> [] \<longrightarrow>
            (l, members l prs) \<in> set (map (\<lambda>g. (lg_name g, lg_prs g))
               (fst (snd (summarizeGroups e key (groupPRsByLabels prs gl) ([], [], w)))))) \<and>
         (completed e \<and> gl = cfgLabels e \<and> prs = filteredPRs e \<longrightarrow>
            map (map (\<lambda>g. (lg_name g, lg_prs g))) (artifactGroups (run e)) = [emitted prs gl] \<and>
            (members l prs \<noteq> [] \<longrightarrow> (l, members l prs) \<in> set (emitted prs gl)))"
proof -
  have 1: "map_of (groupPRsByLabels prs gl) l = Some (members l prs)"
    using assms by (simp add: groupPRsByLabels_eq map_of_tabulate set_configured)
  have 2: "count_list (members l prs) pr = count_list prs pr * count_list (labels pr) l"
    by (rule count_members)
  have 3: "members l prs \<noteq> [] \<longrightarrow>
      (l, members l prs) \<in> set (map (\<lambda>g. (lg_name g, lg_prs g))
         (fst (snd (summarizeGroups e key (groupPRsByLabels prs gl) ([], [], w)))))"
    using assms summarize_members [of e key "groupPRsByLabels prs gl" "([], [], w)"]
    by (auto simp: groupPRsByLabels_eq set_configured)
  have 4: "completed e \<and> gl = cfgLabels e \<and> prs = filteredPRs e \<longrightarrow>
            map (map (\<lambda>g. (lg_name g, lg_prs g))) (artifactGroups (run e)) = [emitted prs gl] \<and>
            (members l prs \<noteq> [] \<longrightarrow> (l, members l prs) \<in> set (emitted prs gl))"
    using run_artifact_members [of e] emitted_member [OF assms, of prs] by blast
  from 1 2 3 4 show ?thesis by blast
qed

lemma completed_twiceEnv: "completed twiceEnv"
  by (rule completedI [where owner = "''test-owner''" and repo = "''test-repo''"
                         and allPRs = "[twiceRawPR]"])
     (simp_all add: twiceEnv_def mockEnv_def mockInputs_def cfgLabels_def
        parseGroupingLabels_def trim_def isWhiteSpace_def)

lemma cfgLabels_twiceEnv: "cfgLabels twiceEnv = [''writer'', ''ui'']"
  by (simp add: twiceEnv_def mockEnv_def mockInputs_def cfgLabels_def parseGroupingLabels_def
        trim_def isWhiteSpace_def)

lemma filteredPRs_twiceEnv: "filteredPRs twiceEnv = [twicePR]"
  by (simp add: filteredPRs_def twiceEnv_def mockEnv_def mockInputs_def cfgLabels_def
        cfgFeature_def parseGroupingLabels_def trim_def isWhiteSpace_def sinceDateOf_def
        previousRelease_def relevantPRs_def keepPR_def twiceRawPR_def labelNames_def
        projectPR_def twicePR_def orEmpty_def)

theorem C9_label_multiplicity_witness:
  "''ui'' \<in> set [''writer'', ''ui''] \<and> completed twiceEnv \<and>
   cfgLabels twiceEnv = [''writer'', ''ui''] \<and> filteredPRs twiceEnv = [twicePR] \<and>
   count_list (labels twicePR) ''ui'' = 2 \<and>
   map_of (groupPRsByLabels [twicePR] [''writer'', ''ui'']) ''ui'' = Some [twicePR, twicePR] \<and>
   count_list (members ''ui'' [twicePR]) twicePR = 2 \<and>
   map (map (\<lambda>g. (lg_name g, lg_prs g))) (artifactGroups (run twiceEnv)) =
     [[(''ui'', [twicePR, twicePR])]]"
proof -
  have u: "''ui'' \<in> set [''writer'', ''ui'']" by simp
  have m: "members ''ui'' [twicePR] = [twicePR, twicePR]"
    by (simp add: members_def twicePR_def)
  have em: "emitted [twicePR] [''writer'', ''ui''] = [(''ui'', [twicePR, twicePR])]"
    by (simp add: emitted_def members_def configured_def twicePR_def)
  show ?thesis
    using C9_label_multiplicity [OF u, where prs = "[twicePR]" and pr = twicePR and e = twiceEnv
            and key = "[]" and w = emptyWorld]
          completed_twiceEnv cfgLabels_twiceEnv filteredPRs_twiceEnv
    by (simp add: m em)
qed

text \<open>
  Claim C8. When the lookup of the latest release fails, the run goes on: the output
  \<open>has-previous-release\<close> is \<open>false\<close>, \<open>previous-tag\<close> and
  \<open>previous-release-date\<close> are empty, and the run is completed exactly when the later
  steps (listing the pull requests, creating the directory, writing the file) succeed. The
  cutoff is the ISO text of the current time minus seven days, and it is the cutoff the run
  filters with: the output \<open>total-prs\<close> counts, and the groups of the artifact hold, the
  listed pull requests that pass the filter with that cutoff.
\<close>

theorem C8_no_previous_release:
  assumes "getInput e ''github-token'' \<noteq> []" and "getInput e ''gemini-api-key'' \<noteq> []"
    and "getInput e ''grouping-labels'' \<noteq> []" and "cfgLabels e \<noteq> []"
    and "context_repo e = Inr (owner, repo)"
    and "getLatestRelease e = Inl err"
  shows "getOutput ''has-previous-release'' (run e) = Some (Text ''false'') \<and>
         getOutput ''previous-tag'' (run e) = Some (Text []) \<and>
         getOutput ''previous-release-date'' (run e) = Some (Text []) \<and>
         sinceDateOf e = toISOString e (now e - 7 * 24 * 60 * 60 * 1000) \<and>
         (completed e \<longleftrightarrow>
            (\<exists>allPRs. pulls_list e = Inr allPRs) \<and> mkdirSync e = None \<and> writeFileSync e = None) \<and>
         (completed e \<and> pulls_list e = Inr allPRs \<longrightarrow>
            getOutput ''total-prs'' (run e) =
              Some (Text (nat_toString (length
                (relevantPRs (cfgLabels e) (cfgFeature e)
                   (toISOString e (now e - 7 * 24 * 60 * 60 * 1000)) allPRs)))) \<and>
            map (map (\<lambda>g. (lg_name g, lg_prs g))) (artifactGroups (run e)) =
              [emitted (relevantPRs (cfgLabels e) (cfgFeature e)
                          (toISOString e (now e - 7 * 24 * 60 * 60 * 1000)) allPRs)
                       (cfgLabels e)])"
proof -
  have pr: "previousRelease e = (False, [], [])"
    by (simp add: previousRelease_def assms(6))
  have run: "run e = runRelease e (getInput e ''gemini-api-key'') (cfgLabels e) (cfgFeature e)
                       owner repo"
    by (rule run_valid [OF assms(1-5)])
  from runRelease_outputs [of e "getInput e ''gemini-api-key''" "cfgLabels e" "cfgFeature e" owner repo]
  obtain rest where
    o: "outputs (run e) = outputs (releaseSteps e (cfgLabels e) (cfgFeature e) owner repo) @ rest"
    and r: "fst ` set rest \<subseteq> {''grouped-summaries'', ''label-groups'', ''total-prs'',
                                  ''has-content'', ''artifact-name''}"
    by (auto simp: run)
  have n1: "''has-previous-release'' \<notin> fst ` set rest" using r by auto
  have n2: "''previous-tag'' \<notin> fst ` set rest" using r by auto
  have n3: "''previous-release-date'' \<notin> fst ` set rest" using r by auto
  have 1: "getOutput ''has-previous-release'' (run e) = Some (Text ''false'')"
    by (simp add: getOutput_prefix [OF o n1] releaseSteps_outputs pr bool_toString_def)
  have 2: "getOutput ''previous-tag'' (run e) = Some (Text [])"
    by (simp add: getOutput_prefix [OF o n2] releaseSteps_outputs pr)
  have 3: "getOutput ''previous-release-date'' (run e) = Some (Text [])"
    by (simp add: getOutput_prefix [OF o n3] releaseSteps_outputs pr)
  have 4: "sinceDateOf e = toISOString e (now e - 7 * 24 * 60 * 60 * 1000)"
    by (simp add: sinceDateOf_def pr)
  have 5: "completed e \<longleftrightarrow>
            (\<exists>allPRs. pulls_list e = Inr allPRs) \<and> mkdirSync e = None \<and> writeFileSync e = None"
    using assms(1-5)
    by (auto simp: completed_def failed_run split: sum.splits option.splits)
  have 6: "completed e \<and> pulls_list e = Inr allPRs \<longrightarrow>
            getOutput ''total-prs'' (run e) =
              Some (Text (nat_toString (length
                (relevantPRs (cfgLabels e) (cfgFeature e)
                   (toISOString e (now e - 7 * 24 * 60 * 60 * 1000)) allPRs)))) \<and>
            map (map (\<lambda>g. (lg_name g, lg_prs g))) (artifactGroups (run e)) =
              [emitted (relevantPRs (cfgLabels e) (cfgFeature e)
                          (toISOString e (now e - 7 * 24 * 60 * 60 * 1000)) allPRs)
                       (cfgLabels e)]"
  proof
    assume c: "completed e \<and> pulls_list e = Inr allPRs"
    then have f: "filteredPRs e =
        relevantPRs (cfgLabels e) (cfgFeature e)
          (toISOString e (now e - 7 * 24 * 60 * 60 * 1000)) allPRs"
      using 4 by (simp add: filteredPRs_def)
    show "getOutput ''total-prs'' (run e) =
              Some (Text (nat_toString (length
                (relevantPRs (cfgLabels e) (cfgFeature e)
                   (toISOString e (now e - 7 * 24 * 60 * 60 * 1000)) allPRs)))) \<and>
            map (map (\<lambda>g. (lg_name g, lg_prs g))) (artifactGroups (run e)) =
              [emitted (relevantPRs (cfgLabels e) (cfgFeature e)
                          (toISOString e (now e - 7 * 24 * 60 * 60 * 1000)) allPRs)
                       (cfgLabels e)]"
      using c run_total_prs [of e] run_artifact_members [of e] by (simp only: f)
  qed
  from 1 2 3 4 5 6 show ?thesis by blast
qed

lemma relevantPRs_noRelease:
  "relevantPRs [''writer'', ''ui''] False ''2024-01-16T08:53:20.000Z'' mockPRs =
     [projectPR (mockPRs ! 1)]"
  by (simp add: relevantPRs_def keepPR_def mockPRs_def labelNames_def)

theorem C8_no_previous_release_witness:
  "getInput noReleaseEnv ''github-token'' \<noteq> [] \<and> getInput noReleaseEnv ''gemini-api-key'' \<noteq> [] \<and>
   getInput noReleaseEnv ''grouping-labels'' \<noteq> [] \<and> cfgLabels noReleaseEnv \<noteq> [] \<and>
   context_repo noReleaseEnv = Inr (''test-owner'', ''test-repo'') \<and>
   getLatestRelease noReleaseEnv = Inl (newError ''Not found'') \<and>
   getOutput ''has-previous-release'' (run noReleaseEnv) = Some (Text ''false'') \<and>
   getOutput ''previous-tag'' (run noReleaseEnv) = Some (Text []) \<and>
   getOutput ''previous-release-date'' (run noReleaseEnv) = Some (Text []) \<and>
   sinceDateOf noReleaseEnv = ''2024-01-16T08:53:20.000Z'' \<and>
   completed noReleaseEnv \<and> pulls_list noReleaseEnv = Inr mockPRs \<and>
   raw_merged_at (mockPRs ! 0) = Some ''2024-01-15T10:00:00Z'' \<and>
   raw_merged_at (mockPRs ! 1) = Some ''2024-01-16T10:00:00Z'' \<and>
   getOutput ''total-prs'' (run noReleaseEnv) = Some (Text ''1'') \<and>
   map (map (\<lambda>g. (lg_name g, lg_prs g))) (artifactGroups (run noReleaseEnv)) =
     [[(''ui'', [projectPR (mockPRs ! 1)])]]"
proof -
  have a: "getInput noReleaseEnv ''github-token'' \<noteq> []"
    and b: "getInput noReleaseEnv ''gemini-api-key'' \<noteq> []"
    and c: "getInput noReleaseEnv ''grouping-labels'' \<noteq> []"
    and d: "cfgLabels noReleaseEnv \<noteq> []"
    and f: "context_repo noReleaseEnv = Inr (''test-owner'', ''test-repo'')"
    and g: "getLatestRelease noReleaseEnv = Inl (newError ''Not found'')"
    and p: "pulls_list noReleaseEnv = Inr mockPRs"
    and k: "mkdirSync noReleaseEnv = None" "writeFileSync noReleaseEnv = None"
    by (simp_all add: noReleaseEnv_def mockEnv_def mockInputs_def cfgLabels_def
          parseGroupingLabels_def trim_def isWhiteSpace_def)
  have cfg: "cfgLabels noReleaseEnv = [''writer'', ''ui'']" "\<not> cfgFeature noReleaseEnv"
    by (simp_all add: noReleaseEnv_def mockEnv_def mockInputs_def cfgLabels_def cfgFeature_def
          parseGroupingLabels_def trim_def isWhiteSpace_def)
  have t: "toISOString noReleaseEnv (now noReleaseEnv - 604800000) =
             ''2024-01-16T08:53:20.000Z''"
    by (simp add: noReleaseEnv_def mockEnv_def)
  have em: "emitted [projectPR (mockPRs ! 1)] [''writer'', ''ui''] =
              [(''ui'', [projectPR (mockPRs ! 1)])]"
    by (simp add: emitted_def members_def configured_def projectPR_def mockPRs_def labelNames_def)
  have ms: "raw_merged_at (mockPRs ! 0) = Some ''2024-01-15T10:00:00Z''"
           "raw_merged_at (mockPRs ! 1) = Some ''2024-01-16T10:00:00Z''"
    by (simp_all add: mockPRs_def)
  have one: "nat_toString (Suc 0) = ''1''"
    by (simp add: nat_toString.simps [of "Suc 0"] digitChar_def)
  show ?thesis
    using C8_no_previous_release [OF a b c d f g, where allPRs = mockPRs] a b c d f g p k ms em
    by (simp add: cfg t relevantPRs_noRelease one)
qed

lemma convert_passthrough:
  "md = ''No new changes were released in this period.'' \<or> md = ''Failed to generate AI summary''
   \<Longrightarrow> convertToSlackFormat e md key w = (md, w)"
  by (auto simp: convertToSlackFormat_def)

text \<open>
  Claim C4. The chat stage is claimed to return every placeholder unchanged without a
  request. It does so for the sentinel and for \<open>Failed to generate AI summary\<close>
  (\<open>convert_passthrough\<close>), but not for \<open>Failed to generate summary\<close>, the text the
  summary stage returns when the response holds no candidate: that text is sent to the
  endpoint, and what comes back replaces it.
\<close>

theorem C4_placeholder_sent:
  "fst (generateAISummary noCandidatesEnv [bothPR] ''k'' (Some ''ui'') emptyWorld) =
     ''Failed to generate summary'' \<and>
   requests (snd (convertToSlackFormat noCandidatesEnv ''Failed to generate summary'' ''k''
                    emptyWorld)) =
     [(geminiUrl ''k'', slackPrompt ''Failed to generate summary'')] \<and>
   fst (convertToSlackFormat mockEnv ''Failed to generate summary'' ''k'' emptyWorld) =
     ''### Test Summary\<newline>- Test feature added''"
  by (simp add: generateAISummary_def convertToSlackFormat_def Let_def noCandidatesEnv_def
        mockEnv_def askGemini_def extractText_def orElse_def emptyWorld_def
        mockGeminiResponse_def)

section \<open>The three group-level outputs\<close>

lemma completed_numberedEnv: "completed numberedEnv"
  by (rule completedI [where owner = "''test-owner''" and repo = "''test-repo''"
                         and allPRs = "[numberedPR]"])
     (simp_all add: numberedEnv_def mockEnv_def mockInputs_def cfgLabels_def
        parseGroupingLabels_def trim_def isWhiteSpace_def)

lemma cfgLabels_numberedEnv: "cfgLabels numberedEnv = [''b'', ''1'']"
  by (simp add: numberedEnv_def mockEnv_def mockInputs_def cfgLabels_def parseGroupingLabels_def
        trim_def isWhiteSpace_def)

lemma filteredPRs_numberedEnv: "filteredPRs numberedEnv = [projectPR numberedPR]"
  by (simp add: filteredPRs_def numberedEnv_def mockEnv_def mockInputs_def cfgLabels_def
        cfgFeature_def parseGroupingLabels_def trim_def isWhiteSpace_def sinceDateOf_def
        previousRelease_def relevantPRs_def keepPR_def numberedPR_def labelNames_def)

lemma groups_numberedEnv:
  "groupPRsByLabels [projectPR numberedPR] [''b'', ''1''] =
     [(''b'', [projectPR numberedPR]), (''1'', [projectPR numberedPR])]"
  by (simp add: groupPRsByLabels_eq configured_def members_def projectPR_def numberedPR_def
        labelNames_def)

lemma isArrayIndex_1: "isArrayIndex ''1''"
  by (simp add: isArrayIndex_def isDigit_def digits_value_def)

lemma isArrayIndex_b: "\<not> isArrayIndex ''b''"
  by (simp add: isArrayIndex_def isDigit_def digits_value_def)

lemma summarize_numberedEnv:
  "fst (summarizeGroups numberedEnv (getInput numberedEnv ''gemini-api-key'')
          [(''b'', [projectPR numberedPR]), (''1'', [projectPR numberedPR])] ([], [], w)) =
     [(''1'', \<lparr> markdown = ''### Test Summary\<newline>- Test feature added'',
                slack = ''### Test Summary\<newline>- Test feature added'' \<rparr>),
      (''b'', \<lparr> markdown = ''### Test Summary\<newline>- Test feature added'',
                slack = ''### Test Summary\<newline>- Test feature added'' \<rparr>)]"
  by (simp add: summarizeGroup_def generateAISummary_def convertToSlackFormat_def Let_def
        numberedEnv_def mockEnv_def askGemini_def extractText_def orElse_def
        mockGeminiResponse_def obj_set_def isArrayIndex_1 isArrayIndex_b)

text \<open>
  Claim C10 states that the keys of \<open>grouped-summaries\<close>, the names in
  \<open>label-groups\<close> and the names of the artifact's groups are the same names in the same
  order. With the grouping labels \<open>b,1\<close> and one pull request carrying both, the names
  are \<open>b, 1\<close> and the keys are \<open>1, b\<close>.
\<close>

theorem C10_key_order_counterexample:
  "completed numberedEnv \<and>
   getOutput ''label-groups'' (run numberedEnv) = Some (Text ''b,1'') \<and>
   map (map lg_name) (artifactGroups (run numberedEnv)) = [[''b'', ''1'']] \<and>
   getOutput ''grouped-summaries'' (run numberedEnv) =
     Some (SummariesJson
       [(''1'', \<lparr> markdown = ''### Test Summary\<newline>- Test feature added'',
                  slack = ''### Test Summary\<newline>- Test feature added'' \<rparr>),
        (''b'', \<lparr> markdown = ''### Test Summary\<newline>- Test feature added'',
                  slack = ''### Test Summary\<newline>- Test feature added'' \<rparr>)])"
proof -
  let ?key = "getInput numberedEnv ''gemini-api-key''"
  let ?gs = "[(''b'', [projectPR numberedPR]), (''1'', [projectPR numberedPR])]"
  from run_completed [OF completed_numberedEnv] obtain gs lgs w w2 where
    sg: "summarizeGroups numberedEnv ?key ?gs ([], [], w) = (gs, lgs, w2)"
    and o: "outputs (run numberedEnv) =
             [(''release-date'', Text (releaseDateOf numberedEnv)),
              (''release-timestamp'', Text (releaseTimestampOf numberedEnv)),
              (''has-previous-release'', Text (bool_toString (fst (previousRelease numberedEnv)))),
              (''previous-tag'', Text (fst (snd (previousRelease numberedEnv)))),
              (''previous-release-date'', Text (snd (snd (previousRelease numberedEnv)))),
              (''grouped-summaries'', SummariesJson gs),
              (''label-groups'', Text (join '','' (map lg_name lgs))),
              (''total-prs'', Text (nat_toString (length (filteredPRs numberedEnv)))),
              (''has-content'', Text (bool_toString (0 < length lgs))),
              (''artifact-name'',
                 case uploadArtifact numberedEnv of
                   Inl err \<Rightarrow> Text []
                 | Inr n \<Rightarrow> Text (''changelog-'' @ releaseTimestampOf numberedEnv))]"
    and a: "artifactGroups (run numberedEnv) = [lgs]"
    unfolding filteredPRs_numberedEnv cfgLabels_numberedEnv groups_numberedEnv by blast
  have gs: "gs = [(''1'', \<lparr> markdown = ''### Test Summary\<newline>- Test feature added'',
                  slack = ''### Test Summary\<newline>- Test feature added'' \<rparr>),
        (''b'', \<lparr> markdown = ''### Test Summary\<newline>- Test feature added'',
                  slack = ''### Test Summary\<newline>- Test feature added'' \<rparr>)]"
    using summarize_numberedEnv [of w] sg by simp
  have "map (\<lambda>g. (lg_name g, lg_prs g)) lgs = ?gs"
    using summarize_members [of numberedEnv ?key ?gs "([], [], w)"] sg by simp
  then have "map fst (map (\<lambda>g. (lg_name g, lg_prs g)) lgs) = [''b'', ''1'']" by simp
  then have names: "map lg_name lgs = [''b'', ''1'']" by (simp add: comp_def)
  show ?thesis
    using completed_numberedEnv by (simp add: getOutput_def o a gs names)
qed

lemma keys_obj_set_index:
  "fst ` set (obj_set_index k v m) = insert k (fst ` set m)"
proof -
  have "dom (map_of (obj_set_index k v m)) = insert k (dom (map_of m))"
    by (simp add: map_of_obj_set_index)
  then show ?thesis by (simp add: dom_map_of_conv_image_fst)
qed

lemma distinct_obj_set_index:
  "k \<notin> fst ` set m \<Longrightarrow> distinct (map fst m) \<Longrightarrow> distinct (map fst (obj_set_index k v m))"
  by (induction m) (auto simp: keys_obj_set_index)

lemma keys_obj_set:
  "k \<notin> fst ` set m \<Longrightarrow> fst ` set (obj_set k v m) \<subseteq> insert k (fst ` set m)"
  by (auto simp: obj_set_def keys_obj_set_index map_set_fresh)

lemma distinct_obj_set:
  "k \<notin> fst ` set m \<Longrightarrow> distinct (map fst m) \<Longrightarrow> distinct (map fst (obj_set k v m))"
  by (simp add: obj_set_def distinct_obj_set_index map_set_fresh)

lemma summarize_distinct:
  assumes "distinct (map fst gs)"
    and "fst ` set gs \<inter> lg_name ` set lgs = {}"
    and "distinct (map fst obj)"
    and "fst ` set obj \<subseteq> lg_name ` set lgs"
  shows "distinct (map fst (fst (summarizeGroups e key gs (obj, lgs, w))))"
  using assms
proof (induction gs arbitrary: obj lgs w)
  case Nil
  then show ?case by simp
next
  case (Cons p gs)
  obtain l prs where p: "p = (l, prs)" by (cases p) auto
  show ?case
  proof (cases "prs = []")
    case True
    have "fst ` set gs \<inter> lg_name ` set lgs = {}" using Cons.prems(2) by auto
    with Cons True p show ?thesis by simp
  next
    case False
    from step_shape [OF False, of e key l obj lgs w] obtain s w'
      where st: "summarizeGroup e key l prs (obj, lgs, w) =
        (obj_set l s obj, lgs @ [\<lparr> lg_name = l, lg_prs = prs, lg_summary = s \<rparr>], w')"
      by blast
    let ?lgs' = "lgs @ [\<lparr> lg_name = l, lg_prs = prs, lg_summary = s \<rparr>]"
    have fresh: "l \<notin> fst ` set obj" using Cons.prems(2,4) p by auto
    have d: "distinct (map fst gs)" using Cons.prems(1) by simp
    have dj: "fst ` set gs \<inter> lg_name ` set ?lgs' = {}"
      using Cons.prems(1,2) p by auto
    have d': "distinct (map fst (obj_set l s obj))"
      using distinct_obj_set [OF fresh Cons.prems(3)] .
    have sub: "fst ` set (obj_set l s obj) \<subseteq> lg_name ` set ?lgs'"
      using keys_obj_set [OF fresh, of s] Cons.prems(4) by auto
    show ?thesis
      using Cons.IH [OF d dj d' sub, of w'] by (simp add: p st)
  qed
qed

lemma distinct_emitted: "distinct (map fst (emitted prs gl))"
proof -
  have "map fst (emitted prs gl) = filter (\<lambda>l. members l prs \<noteq> []) (configured gl)"
    by (induction "configured gl" arbitrary: gl) (auto simp: emitted_def comp_def filter_map)
  then show ?thesis by (simp add: distinct_configured)
qed

text \<open>
  Claim C10, amended. On a completed run the names in \<open>label-groups\<close> and the names of
  the artifact's groups are the same list of distinct names; the keys of
  \<open>grouped-summaries\<close> are distinct; a name other than \<open>__proto__\<close> is a key exactly
  when it is the name of a group, and then it carries the summary pair of that group; when
  no name is an array index or \<open>__proto__\<close>, the keys stand in the order of the names.
\<close>

theorem C10_groups_consistent:
  assumes "completed e"
  shows "\<exists>gs lgs.
           getOutput ''grouped-summaries'' (run e) = Some (SummariesJson gs) \<and>
           getOutput ''label-groups'' (run e) = Some (Text (join '','' (map lg_name lgs))) \<and>
           artifactGroups (run e) = [lgs] \<and>
           distinct (map lg_name lgs) \<and> distinct (map fst gs) \<and>
           (\<forall>k. k \<noteq> ''__proto__'' \<longrightarrow>
              map_of gs k = map_of (map (\<lambda>g. (lg_name g, lg_summary g)) lgs) k) \<and>
           ((\<forall>g \<in> set lgs. plainName (lg_name g)) \<longrightarrow>
              gs = map (\<lambda>g. (lg_name g, lg_summary g)) lgs)"
proof -
  let ?key = "getInput e ''gemini-api-key''"
  let ?groups = "groupPRsByLabels (filteredPRs e) (cfgLabels e)"
  from run_completed [OF assms] obtain gs lgs w w2 where
    sg: "summarizeGroups e ?key ?groups ([], [], w) = (gs, lgs, w2)"
    and o: "outputs (run e) =
             [(''release-date'', Text (releaseDateOf e)),
              (''release-timestamp'', Text (releaseTimestampOf e)),
              (''has-previous-release'', Text (bool_toString (fst (previousRelease e)))),
              (''previous-tag'', Text (fst (snd (previousRelease e)))),
              (''previous-release-date'', Text (snd (snd (previousRelease e)))),
              (''grouped-summaries'', SummariesJson gs),
              (''label-groups'', Text (join '','' (map lg_name lgs))),
              (''total-prs'', Text (nat_toString (length (filteredPRs e)))),
              (''has-content'', Text (bool_toString (0 < length lgs))),
              (''artifact-name'',
                 case uploadArtifact e of
                   Inl err \<Rightarrow> Text []
                 | Inr n \<Rightarrow> Text (''changelog-'' @ releaseTimestampOf e))]"
    and a: "artifactGroups (run e) = [lgs]"
    by blast
  have dg: "distinct (map fst ?groups)"
    by (simp add: groupPRsByLabels_eq comp_def distinct_configured)
  have m: "map (\<lambda>g. (lg_name g, lg_prs g)) lgs = emitted (filteredPRs e) (cfgLabels e)"
    using summarize_members [of e ?key ?groups "([], [], w)"] sg
    by (simp add: groupPRsByLabels_eq emitted_def)
  have "map fst (map (\<lambda>g. (lg_name g, lg_prs g)) lgs) = map lg_name lgs"
    by (simp add: comp_def)
  with m have names: "map lg_name lgs = map fst (emitted (filteredPRs e) (cfgLabels e))"
    by simp
  have 1: "getOutput ''grouped-summaries'' (run e) = Some (SummariesJson gs)"
    by (simp add: getOutput_def o)
  have 2: "getOutput ''label-groups'' (run e) = Some (Text (join '','' (map lg_name lgs)))"
    by (simp add: getOutput_def o)
  have 3: "distinct (map lg_name lgs)"
    by (simp add: names distinct_emitted)
  have 4: "distinct (map fst gs)"
    using summarize_distinct [of ?groups "[]" "[]" e ?key w] dg sg by simp
  have 5: "\<forall>k. k \<noteq> ''__proto__'' \<longrightarrow>
              map_of gs k = map_of (map (\<lambda>g. (lg_name g, lg_summary g)) lgs) k"
    using summarize_lookup [of ?groups "[]" "[]" e ?key w] dg sg by simp
  have 6: "(\<forall>g \<in> set lgs. plainName (lg_name g)) \<longrightarrow>
              gs = map (\<lambda>g. (lg_name g, lg_summary g)) lgs"
  proof
    assume pl: "\<forall>g \<in> set lgs. plainName (lg_name g)"
    have "\<forall>(l, b) \<in> set ?groups. b \<noteq> [] \<longrightarrow> plainName l"
    proof (clarify)
      fix l b assume "(l, b) \<in> set ?groups" "b \<noteq> []"
      then have "(l, b) \<in> set (emitted (filteredPRs e) (cfgLabels e))"
        by (auto simp: groupPRsByLabels_eq emitted_def)
      then have "(l, b) \<in> set (map (\<lambda>g. (lg_name g, lg_prs g)) lgs)" using m by simp
      then show "plainName l" using pl by auto
    qed
    then show "gs = map (\<lambda>g. (lg_name g, lg_summary g)) lgs"
      using summarize_order [of ?groups "[]" "[]" e ?key w] dg sg by simp
  qed
  from 1 2 a 3 4 5 6 show ?thesis by blast
qed

lemma groups_mockEnv:
  "groupPRsByLabels (map projectPR [mockPRs ! 0, mockPRs ! 1]) [''writer'', ''ui''] =
     [(''writer'', [projectPR (mockPRs ! 0)]), (''ui'', [projectPR (mockPRs ! 1)])]"
  by (simp add: groupPRsByLabels_eq configured_def members_def projectPR_def mockPRs_def
        labelNames_def)

lemma summarize_mockEnv:
  "fst (snd (summarizeGroups mockEnv (getInput mockEnv ''gemini-api-key'')
          [(''writer'', [projectPR (mockPRs ! 0)]), (''ui'', [projectPR (mockPRs ! 1)])]
          ([], [], w))) =
     [\<lparr> lg_name = ''writer'', lg_prs = [projectPR (mockPRs ! 0)],
        lg_summary = \<lparr> markdown = ''### Test Summary\<newline>- Test feature added'',
                        slack = ''### Test Summary\<newline>- Test feature added'' \<rparr> \<rparr>,
      \<lparr> lg_name = ''ui'', lg_prs = [projectPR (mockPRs ! 1)],
        lg_summary = \<lparr> markdown = ''### Test Summary\<newline>- Test feature added'',
                        slack = ''### Test Summary\<newline>- Test feature added'' \<rparr> \<rparr>]"
  by (simp add: summarizeGroup_def generateAISummary_def convertToSlackFormat_def Let_def
        mockEnv_def askGemini_def extractText_def orElse_def mockGeminiResponse_def)

lemma artifactGroups_mockEnv:
  "artifactGroups (run mockEnv) =
     [[\<lparr> lg_name = ''writer'', lg_prs = [projectPR (mockPRs ! 0)],
         lg_summary = \<lparr> markdown = ''### Test Summary\<newline>- Test feature added'',
                         slack = ''### Test Summary\<newline>- Test feature added'' \<rparr> \<rparr>,
       \<lparr> lg_name = ''ui'', lg_prs = [projectPR (mockPRs ! 1)],
         lg_summary = \<lparr> markdown = ''### Test Summary\<newline>- Test feature added'',
                         slack = ''### Test Summary\<newline>- Test feature added'' \<rparr> \<rparr>]]"
proof -
  from run_completed [OF completed_mockEnv] obtain gs lgs w w2 where
    sg: "summarizeGroups mockEnv (getInput mockEnv ''gemini-api-key'')
           [(''writer'', [projectPR (mockPRs ! 0)]), (''ui'', [projectPR (mockPRs ! 1)])]
           ([], [], w) = (gs, lgs, w2)"
    and a: "artifactGroups (run mockEnv) = [lgs]"
    unfolding filteredPRs_mockEnv cfgLabels_mockEnv groups_mockEnv by blast
  show ?thesis using summarize_mockEnv [of w] sg a by simp
qed

lemma plainName_writer_ui: "plainName ''writer'' \<and> plainName ''ui''"
  by (simp add: plainName_def isArrayIndex_def isDigit_def)

theorem C10_groups_consistent_witness:
  "completed mockEnv \<and> plainName ''writer'' \<and> plainName ''ui'' \<and>
   map (map lg_name) (artifactGroups (run mockEnv)) = [[''writer'', ''ui'']] \<and>
   getOutput ''label-groups'' (run mockEnv) = Some (Text ''writer,ui'') \<and>
   getOutput ''grouped-summaries'' (run mockEnv) =
     Some (SummariesJson
       [(''writer'', \<lparr> markdown = ''### Test Summary\<newline>- Test feature added'',
                       slack = ''### Test Summary\<newline>- Test feature added'' \<rparr>),
        (''ui'', \<lparr> markdown = ''### Test Summary\<newline>- Test feature added'',
                   slack = ''### Test Summary\<newline>- Test feature added'' \<rparr>)])"
proof -
  from C10_groups_consistent [OF completed_mockEnv] obtain gs lgs where
    g: "getOutput ''grouped-summaries'' (run mockEnv) = Some (SummariesJson gs)"
    and l: "getOutput ''label-groups'' (run mockEnv) = Some (Text (join '','' (map lg_name lgs)))"
    and a: "artifactGroups (run mockEnv) = [lgs]"
    and p: "(\<forall>g \<in> set lgs. plainName (lg_name g)) \<longrightarrow>
              gs = map (\<lambda>g. (lg_name g, lg_summary g)) lgs"
    by blast
  have lgs: "lgs =
     [\<lparr> lg_name = ''writer'', lg_prs = [projectPR (mockPRs ! 0)],
        lg_summary = \<lparr> markdown = ''### Test Summary\<newline>- Test feature added'',
                        slack = ''### Test Summary\<newline>- Test feature added'' \<rparr> \<rparr>,
      \<lparr> lg_name = ''ui'', lg_prs = [projectPR (mockPRs ! 1)],
        lg_summary = \<lparr> markdown = ''### Test Summary\<newline>- Test feature added'',
                        slack = ''### Test Summary\<newline>- Test feature added'' \<rparr> \<rparr>]"
    using a artifactGroups_mockEnv by simp
  have "gs = map (\<lambda>g. (lg_name g, lg_summary g)) lgs"
    using p plainName_writer_ui by (simp add: lgs)
  then show ?thesis
    using completed_mockEnv plainName_writer_ui g l a by (simp add: lgs)
qed

end
